theory Spec2Isabelle
  imports Complex_Main "HOL-Library.Word"
begin

section \<open>Basic types\<close>

text \<open>
  Go's \<open>int64\<close> revisions are 64-bit words (\<open>+\<close> wraps, \<open>sint\<close> reads the signed
  value). A \<open>[]byte\<close> is a list of 8-bit words. A duration (\<open>time.Duration\<close>) is
  an integer counting nanoseconds. A \<open>float64\<close> is a real number: the claims only
  compare such values and add two of them.
\<close>

type_synonym int64 = "64 word"
type_synonym byte = "8 word"
type_synonym bytes = "byte list"
type_synonym duration = int
type_synonym float64 = real

text \<open>
  A \<open>time.Time\<close> holds the instant on the wall clock (in nanoseconds since the Unix
  epoch), the reading of the monotonic clock when it has one, and its \<open>Location\<close>, a
  pointer. Go's \<open>==\<close> on two \<open>time.Time\<close> values compares all three, as the equality
  of records does; two values for one instant in different locations are not \<open>==\<close>.
  \<open>Sub\<close> and \<open>After\<close> read the monotonic clock when both values have a reading of
  it and the wall clock otherwise, and \<open>Sub\<close> stops at the least and at the greatest
  \<open>Duration\<close>; \<open>time.Since t\<close> is \<open>Sub\<close> of \<open>time.Now()\<close> and \<open>t\<close>. The zero
  \<open>time.Time\<close> is the first instant of year 1 in UTC.
\<close>

datatype Location = UTC | Local | LoadedLocation nat

record Time =
  unixNano :: int
  monotonic :: "int option"
  location :: Location

definition saturate :: "int \<Rightarrow> duration" where
  "saturate d = max (- (2 ^ 63)) (min (2 ^ 63 - 1) d)"

definition Sub :: "Time \<Rightarrow> Time \<Rightarrow> duration" where
  "Sub t u =
     (case (monotonic t, monotonic u) of
        (Some a, Some b) \<Rightarrow> saturate (a - b)
      | _ \<Rightarrow> saturate (unixNano t - unixNano u))"

definition After :: "Time \<Rightarrow> Time \<Rightarrow> bool" where
  "After t u =
     (case (monotonic t, monotonic u) of
        (Some a, Some b) \<Rightarrow> b < a
      | _ \<Rightarrow> unixNano u < unixNano t)"

definition zeroTime :: Time where
  "zeroTime = \<lparr> unixNano = - 62135596800000000000, monotonic = None, location = UTC \<rparr>"

section \<open>pkg/snapshot/snapshotter: the cron time window\<close>

text \<open>
  The field indices of a cron expression, and the default window in hours
  (the \<open>const\<close> block of snapshotter.go).
\<close>

definition hour :: nat where "hour = 1"
definition dayOfMonth :: nat where "dayOfMonth = 2"
definition dayOfWeek :: nat where "dayOfWeek = 4"
definition defaultFullSnapMaxTimeWindow :: float64 where
  "defaultFullSnapMaxTimeWindow = 24"

text \<open>
  \<open>strings.Fields\<close> splits a string, a sequence of UTF-8 bytes, around the runs of
  white space that \<open>unicode.IsSpace\<close> recognises: tab, line feed, vertical tab, form
  feed, carriage return and space, and the runes U+0085, U+00A0, U+1680, U+2000 to
  U+200A, U+2028, U+2029, U+202F, U+205F and U+3000. \<open>spaceWidth s\<close> is the number of
  bytes of the white space rune that \<open>s\<close> starts with, and 0 when it starts with none.
  A lead byte of UTF-8 is never a continuation byte, so the decoder of Go is at the
  start of a rune wherever one of these encodings begins.
\<close>

definition spaceWidth :: "string \<Rightarrow> nat" where
  "spaceWidth s =
     (if s = [] then 0
      else if hd s \<in> set [CHR 0x09, CHR 0x0A, CHR 0x0B, CHR 0x0C, CHR 0x0D, CHR 0x20] then 1
      else if take 2 s = [CHR 0xC2, CHR 0x85] \<or> take 2 s = [CHR 0xC2, CHR 0xA0] then 2
      else if take 3 s = [CHR 0xE1, CHR 0x9A, CHR 0x80]
              \<or> (take 2 s = [CHR 0xE2, CHR 0x80] \<and> 3 \<le> length s
                  \<and> ((0x80::nat) \<le> of_char (s ! 2) \<and> (of_char (s ! 2) :: nat) \<le> 0x8A
                      \<or> s ! 2 = CHR 0xA8 \<or> s ! 2 = CHR 0xA9 \<or> s ! 2 = CHR 0xAF))
              \<or> take 3 s = [CHR 0xE2, CHR 0x81, CHR 0x9F]
              \<or> take 3 s = [CHR 0xE3, CHR 0x80, CHR 0x80] then 3
      else 0)"

text \<open>
  The fields are the maximal runs of bytes between white space: \<open>cur\<close> is the field
  being read.
\<close>

fun fields_from :: "string \<Rightarrow> string \<Rightarrow> string list" where
  "fields_from cur [] = (if cur = [] then [] else [cur])"
| "fields_from cur (c # cs) =
     (if 0 < spaceWidth (c # cs)
      then (if cur = [] then fields_from [] (drop (spaceWidth (c # cs) - 1) cs)
            else cur # fields_from [] (drop (spaceWidth (c # cs) - 1) cs))
      else fields_from (cur @ [c]) cs)"

definition Fields :: "string \<Rightarrow> string list" where
  "Fields s = fields_from [] s"

text \<open>\<open>strings.Index s "/"\<close>: the position of the first slash, or \<open>-1\<close>.\<close>

fun Index :: "string \<Rightarrow> char \<Rightarrow> int" where
  "Index [] c = -1"
| "Index (x # xs) c =
     (if x = c then 0 else (let i = Index xs c in if i < 0 then -1 else i + 1))"

text \<open>\<open>strings.LastIndex s "/"\<close>, used only to state what the code does not do.\<close>

definition LastIndex :: "string \<Rightarrow> char \<Rightarrow> int" where
  "LastIndex s c =
     (let i = Index (rev s) c in if i < 0 then -1 else int (length s) - 1 - i)"

definition Contains :: "string \<Rightarrow> char \<Rightarrow> bool" where
  "Contains s c = (c \<in> set s)"

text \<open>The slice \<open>s[i:]\<close> for \<open>0 \<le> i \<le> len(s)\<close>.\<close>

definition slice_from :: "string \<Rightarrow> int \<Rightarrow> string" where
  "slice_from s i = drop (nat i) s"

text \<open>
  \<open>GetFullSnapshotMaxTimeWindow\<close>. \<open>strconv.ParseFloat\<close> is the parameter
  \<open>ParseFloat\<close>: \<open>None\<close> stands for a non-nil error.
\<close>

definition GetFullSnapshotMaxTimeWindow ::
    "(string \<Rightarrow> float64 option) \<Rightarrow> string \<Rightarrow> float64" where
  "GetFullSnapshotMaxTimeWindow ParseFloat fullSnapScheduleSpec =
     (let schedule = Fields fullSnapScheduleSpec in
      if length schedule < 5 then defaultFullSnapMaxTimeWindow
      else if schedule ! dayOfWeek \<noteq> ''*'' then defaultFullSnapMaxTimeWindow * 7
      else if schedule ! dayOfMonth = ''*'' \<and> schedule ! dayOfWeek = ''*''
              \<and> Contains (schedule ! hour) CHR ''/''
        then (case ParseFloat (slice_from (schedule ! hour)
                                 (Index (schedule ! hour) CHR ''/'' + 1)) of
                Some timeWindow \<Rightarrow> timeWindow
              | None \<Rightarrow> defaultFullSnapMaxTimeWindow)
      else defaultFullSnapMaxTimeWindow)"

text \<open>
  A parser for unsigned decimal integers, on which \<open>strconv.ParseFloat\<close> agrees with
  it: a non-empty string of digits has its value, and a string holding a slash is an
  error. It instantiates the parameter at concrete inputs.
\<close>

definition isDigit :: "char \<Rightarrow> bool" where
  "isDigit c = ((48::nat) \<le> of_char c \<and> (of_char c :: nat) \<le> 57)"

definition parseDecimal :: "string \<Rightarrow> float64 option" where
  "parseDecimal s =
     (if s \<noteq> [] \<and> list_all isDigit s
      then Some (real (foldl (\<lambda>n c. 10 * n + (of_char c - 48)) (0::nat) s))
      else None)"

section \<open>pkg/snapshot/snapshotter: data\<close>

text \<open>
  A Go \<open>error\<close> value. \<open>ErrorString\<close> holds the text (or the format, when its
  arguments are not errors) of an error made by \<open>fmt.Errorf\<close> or returned by a
  collaborator; \<open>Errorf f e\<close> is \<open>fmt.Errorf(f, e)\<close> for a format \<open>f\<close> with one
  \<open>%v\<close>; \<open>EtcdError f e\<close> is \<open>&errors.EtcdError{Message: fmt.Sprintf(f, e)}\<close>.
\<close>

datatype error =
    ErrorString string
  | Errorf string error
  | EtcdError string error

datatype SnapshotKind = SnapshotKindFull | SnapshotKindDelta

record Snapshot =
  Kind :: SnapshotKind
  StartRevision :: int64
  LastRevision :: int64
  CreatedOn :: Time
  CompressionSuffix :: string
  IsFinal :: bool

text \<open>
  Modelled from the spec: \<open>snapstore.NewSnapshot\<close> is not among the sources. The
  descriptor of section 3 holds the kind, the two revisions, the compression suffix and
  the final flag it is given, and the wall-clock time of its creation.
\<close>

definition NewSnapshot ::
    "Time \<Rightarrow> SnapshotKind \<Rightarrow> int64 \<Rightarrow> int64 \<Rightarrow> string \<Rightarrow> bool \<Rightarrow> Snapshot" where
  "NewSnapshot now kind startRevision lastRevision compressionSuffix isFinal =
     \<lparr> Kind = kind, StartRevision = startRevision, LastRevision = lastRevision,
       CreatedOn = now, CompressionSuffix = compressionSuffix, IsFinal = isFinal \<rparr>"

text \<open>The part of \<open>clientv3.Event\<close> and \<open>clientv3.WatchResponse\<close> the code reads.\<close>

record KeyValue =
  Key :: bytes
  Value :: bytes
  ModRevision :: int64

record Event =
  Kv :: KeyValue

record WatchResponse =
  Err :: "error option"
  Events :: "Event list"

datatype SnapshotterState = SnapshotterInactive | SnapshotterActive

text \<open>The pair \<open>(Snapshot, Err)\<close> of the struct \<open>result\<close>; \<open>None\<close> is \<open>nil\<close>.\<close>

type_synonym result = "Snapshot option \<times> error option"

text \<open>
  The struct \<open>Snapshotter\<close>. A channel is the list of the values sent on it. The
  watch channel is \<open>None\<close> when nil and otherwise the revision the watch starts from.
  A timer is the duration it was last armed with. \<open>store\<close> is the handle of the snap
  store (\<open>None\<close> after a failed rebuild); \<open>saveCalls\<close> lists the arguments of every
  call of \<open>SnapStore.Save\<close>, \<open>objects\<close> those of the calls that succeeded.
  \<open>bufferedEvents\<close> is a history variable, not a field of the struct: the events
  appended to the buffer \<open>events\<close> since it was last emptied, each with the JSON that
  was appended for it. It is written where the code writes \<open>events\<close>: extended where an
  event is appended, emptied where the buffer is emptied; no operation reads it.
\<close>

record Snapshotter =
  lastSecretModifiedTime :: Time
  store :: "nat option"
  PrevSnapshot :: Snapshot
  PrevFullSnapshot :: "Snapshot option"
  PrevDeltaSnapshots :: "Snapshot list"
  events :: bytes
  bufferedEvents :: "(Event \<times> bytes) list"
  lastEventRevision :: int64
  SsrState :: SnapshotterState
  PrevFullSnapshotSucceeded :: bool
  watchCh :: "int64 option"
  fullSnapshotTimer :: "duration option"
  deltaSnapshotTimer :: "duration option"
  FullSnapshotLeaseUpdateTimer :: "duration option"
  DeltaSnapshotPeriod :: duration
  DeltaSnapshotMemoryLimit :: int
  compressionEnabled :: bool
  SnapshotLeaseRenewalEnabled :: bool
  fullSnapshotReqCh :: "bool list"
  deltaSnapshotReqCh :: "unit list"
  fullSnapshotAckCh :: "result list"
  deltaSnapshotAckCh :: "result list"
  deltaLeaseUpdates :: nat
  saveCalls :: "(Snapshot \<times> bytes) list"
  objects :: "(Snapshot \<times> bytes) list"

text \<open>
  What the collaborators answer during one operation: the clock, the credentials file,
  the snap store, the compressor, SHA-256, the etcd client factory, the JSON encoder and
  the cron schedule. \<open>Inl\<close> and \<open>Some\<close> of an error are a non-nil \<open>err\<close>.
  \<open>Sum256 b\<close> is the digest of \<open>b\<close>; \<open>scheduleNext\<close> is \<open>schedule.Next(now)\<close>,
  \<open>None\<close> for the zero time.
\<close>

record Env =
  Now :: Time
  GetSnapstoreSecretModifiedTime :: "error + Time"
  GetSnapstore :: "error + nat"
  GetCompressionSuffix :: "error + string"
  Sum256 :: "bytes \<Rightarrow> bytes"
  CompressSnapshot :: "bytes \<Rightarrow> error + bytes"
  Save :: "Snapshot \<Rightarrow> bytes \<Rightarrow> error option"
  NewKV :: "error option"
  GetLatestRevision :: "error + int64"
  NewMaintenance :: "error option"
  SnapshotStream :: "error + bytes"
  NewWatcher :: "error option"
  Marshal :: "Event \<Rightarrow> error + bytes"
  scheduleNext :: "Time option"

definition Second :: duration where
  "Second = 1000000000"

text \<open>
  Modelled from the spec: \<open>brtypes.DeltaSnapshotIntervalThreshold\<close> is not among the
  sources; delta snapshot periods below 1 s disable delta snapshotting.
\<close>

definition DeltaSnapshotIntervalThreshold :: duration where
  "DeltaSnapshotIntervalThreshold = Second"

section \<open>pkg/snapshot/snapshotter: operations\<close>

definition TriggerFullSnapshot :: "result \<Rightarrow> bool \<Rightarrow> Snapshotter \<Rightarrow> Snapshotter \<times> result" where
  "TriggerFullSnapshot res isFinal ssr =
     (if SsrState ssr \<noteq> SnapshotterActive
      then (ssr, (None, Some (ErrorString ''snapshotter is not active'')))
      else (ssr\<lparr>fullSnapshotReqCh := fullSnapshotReqCh ssr @ [isFinal]\<rparr>, res))"

definition TriggerDeltaSnapshot :: "result \<Rightarrow> Snapshotter \<Rightarrow> Snapshotter \<times> result" where
  "TriggerDeltaSnapshot res ssr =
     (if SsrState ssr \<noteq> SnapshotterActive
      then (ssr, (None, Some (ErrorString ''snapshotter is not active'')))
      else if DeltaSnapshotPeriod ssr < DeltaSnapshotIntervalThreshold
      then (ssr, (None, Some (ErrorString
              ''found delta snapshot interval %s less than %v. Delta snapshotting is disabled. '')))
      else (ssr\<lparr>deltaSnapshotReqCh := deltaSnapshotReqCh ssr @ [()]\<rparr>, res))"

definition closeEtcdClient :: "Snapshotter \<Rightarrow> Snapshotter" where
  "closeEtcdClient ssr = ssr\<lparr>watchCh := None\<rparr>"

definition cleanupInMemoryEvents :: "Snapshotter \<Rightarrow> Snapshotter" where
  "cleanupInMemoryEvents ssr =
     ssr\<lparr>events := [], bufferedEvents := [], lastEventRevision := - 1\<rparr>"

definition hasSnapStoreSecretUpdated :: "Env \<Rightarrow> Snapshotter \<Rightarrow> Snapshotter \<times> (error + bool)" where
  "hasSnapStoreSecretUpdated env ssr =
     (case GetSnapstoreSecretModifiedTime env of
        Inl err \<Rightarrow> (ssr, Inl (Errorf
          ''error checking the modification time of the access credentials  %v'' err))
      | Inr newSecretModifiedTime \<Rightarrow>
          if \<not> After newSecretModifiedTime (lastSecretModifiedTime ssr) then (ssr, Inr False)
          else (ssr\<lparr>lastSecretModifiedTime := newSecretModifiedTime\<rparr>, Inr True))"

text \<open>
  The credentials check that opens both snapshot procedures: on a rotation the store
  handle is replaced by what \<open>snapstore.GetSnapstore\<close> returns, nil with an error.
\<close>

definition refreshStore :: "Env \<Rightarrow> Snapshotter \<Rightarrow> Snapshotter \<times> error option" where
  "refreshStore env ssr =
     (case hasSnapStoreSecretUpdated env ssr of
        (ssr1, Inl err) \<Rightarrow>
          (ssr1, Some (Errorf ''error checking if the credentials were updated %v'' err))
      | (ssr1, Inr hasSecretUpdated) \<Rightarrow>
          if hasSecretUpdated then
            (case GetSnapstore env of
               Inl err \<Rightarrow> (ssr1\<lparr>store := None\<rparr>, Some (Errorf
                 ''failed to create snapstore from configured storage provider: %v'' err))
             | Inr h \<Rightarrow> (ssr1\<lparr>store := Some h\<rparr>, None))
          else (ssr1, None))"

definition store_Save :: "Env \<Rightarrow> Snapshot \<Rightarrow> bytes \<Rightarrow> Snapshotter \<Rightarrow> Snapshotter \<times> error option" where
  "store_Save env snap rc ssr =
     (case Save env snap rc of
        Some err \<Rightarrow> (ssr\<lparr>saveCalls := saveCalls ssr @ [(snap, rc)]\<rparr>, Some err)
      | None \<Rightarrow> (ssr\<lparr>saveCalls := saveCalls ssr @ [(snap, rc)],
                      objects := objects ssr @ [(snap, rc)]\<rparr>, None))"

text \<open>
  \<open>TakeDeltaSnapshot\<close> without its deferred \<open>cleanupInMemoryEvents\<close>. Byte
  \<open>0x5D\<close> is the closing bracket. \<open>hash.Write\<close> of SHA-256 returns no error, and
  \<open>hash.Sum(b)\<close> is \<open>b\<close> followed by the digest of what was written.
\<close>

definition TakeDeltaSnapshot_body ::
    "Env \<Rightarrow> Snapshotter \<Rightarrow> Snapshotter \<times> (error + Snapshot option)" where
  "TakeDeltaSnapshot_body env ssr =
     (if length (events ssr) = 0 then (ssr, Inr None)
      else
        let ssr1 = ssr\<lparr>events := events ssr @ [0x5D]\<rparr> in
        case refreshStore env ssr1 of
          (ssr2, Some err) \<Rightarrow> (ssr2, Inl err)
        | (ssr2, None) \<Rightarrow>
           (case GetCompressionSuffix env of
              Inl err \<Rightarrow> (ssr2, Inl (Errorf ''failed to get compressionSuffix: %v'' err))
            | Inr compressionSuffix \<Rightarrow>
               (let snap = NewSnapshot (Now env) SnapshotKindDelta
                             (LastRevision (PrevSnapshot ssr2) + 1) (lastEventRevision ssr2)
                             compressionSuffix False;
                    ssr3 = ssr2\<lparr>events := events ssr2 @ Sum256 env (events ssr2)\<rparr>
                in case (if compressionEnabled ssr3 then CompressSnapshot env (events ssr3)
                         else Inr (events ssr3)) of
                     Inl err \<Rightarrow> (ssr3, Inl (Errorf ''unable to compress delta snapshot: %v'' err))
                   | Inr rc \<Rightarrow>
                      (case store_Save env snap rc ssr3 of
                         (ssr4, Some err) \<Rightarrow> (ssr4, Inl err)
                       | (ssr4, None) \<Rightarrow>
                           (ssr4\<lparr>PrevSnapshot := snap,
                                 PrevDeltaSnapshots := PrevDeltaSnapshots ssr4 @ [snap]\<rparr>,
                            Inr (Some snap))))))"

definition TakeDeltaSnapshot ::
    "Env \<Rightarrow> Snapshotter \<Rightarrow> Snapshotter \<times> (error + Snapshot option)" where
  "TakeDeltaSnapshot env ssr =
     (case TakeDeltaSnapshot_body env ssr of (ssr', r) \<Rightarrow> (cleanupInMemoryEvents ssr', r))"

text \<open>
  Modelled from the spec: \<open>etcdutil.TakeAndSaveFullSnapshot\<close> is not among the
  sources. Section 4.4.2, step 5: the full database is streamed, through the compressor
  when it is enabled, into the snap store under a new Full snapshot that starts at
  revision 0, ends at the revision read in step 3 and carries the final flag.
\<close>

definition TakeAndSaveFullSnapshot ::
    "Env \<Rightarrow> int64 \<Rightarrow> string \<Rightarrow> bool \<Rightarrow> Snapshotter \<Rightarrow> Snapshotter \<times> (error + Snapshot)" where
  "TakeAndSaveFullSnapshot env lastRevision compressionSuffix isFinal ssr =
     (case SnapshotStream env of
        Inl err \<Rightarrow> (ssr, Inl err)
      | Inr db \<Rightarrow>
         (case (if compressionEnabled ssr then CompressSnapshot env db else Inr db) of
            Inl err \<Rightarrow> (ssr, Inl err)
          | Inr rc \<Rightarrow>
             (let s = NewSnapshot (Now env) SnapshotKindFull 0 lastRevision
                        compressionSuffix isFinal
              in case store_Save env s rc ssr of
                   (ssr1, Some err) \<Rightarrow> (ssr1, Inl err)
                 | (ssr1, None) \<Rightarrow> (ssr1, Inr s))))"

text \<open>
  The branch of \<open>takeFullSnapshot\<close> that saves a new full snapshot (the \<open>else\<close> of
  the test for an unchanged final snapshot).
\<close>

definition saveFullSnapshot ::
    "Env \<Rightarrow> int64 \<Rightarrow> bool \<Rightarrow> Snapshotter \<Rightarrow> Snapshotter \<times> error option" where
  "saveFullSnapshot env lastRevision isFinal ssr =
     (case GetCompressionSuffix env of
        Inl err \<Rightarrow> (ssr, Some (Errorf ''failed to get compressionSuffix: %v'' err))
      | Inr compressionSuffix \<Rightarrow>
         (case NewMaintenance env of
            Some err \<Rightarrow> (ssr, Some (ErrorString ''failed to build etcd maintenance client''))
          | None \<Rightarrow>
             (case TakeAndSaveFullSnapshot env lastRevision compressionSuffix isFinal ssr of
                (ssr1, Inl err) \<Rightarrow> (ssr1, Some err)
              | (ssr1, Inr s) \<Rightarrow>
                  (ssr1\<lparr>PrevSnapshot := s, PrevFullSnapshot := Some s,
                        PrevDeltaSnapshots := []\<rparr>, None))))"

text \<open>\<open>takeFullSnapshot\<close> without its deferred \<open>cleanupInMemoryEvents\<close>.\<close>

definition takeFullSnapshot_body ::
    "Env \<Rightarrow> bool \<Rightarrow> Snapshotter \<Rightarrow> Snapshotter \<times> (error + Snapshot)" where
  "takeFullSnapshot_body env isFinal ssr =
     (case refreshStore env (closeEtcdClient ssr) of
        (ssr1, Some err) \<Rightarrow> (ssr1, Inl err)
      | (ssr1, None) \<Rightarrow>
         (case NewKV env of
            Some err \<Rightarrow> (ssr1, Inl (EtcdError ''failed to create etcd KV client: %v'' err))
          | None \<Rightarrow>
             (case GetLatestRevision env of
                Inl err \<Rightarrow>
                  (ssr1, Inl (EtcdError ''failed to get etcd latest revision: %v'' err))
              | Inr lastRevision \<Rightarrow>
                 (case (if isFinal \<and> IsFinal (PrevSnapshot ssr1)
                           \<and> Kind (PrevSnapshot ssr1) = SnapshotKindFull
                           \<and> LastRevision (PrevSnapshot ssr1) = lastRevision
                        then (ssr1, None)
                        else saveFullSnapshot env lastRevision isFinal ssr1) of
                    (ssr2, Some err) \<Rightarrow> (ssr2, Inl err)
                  | (ssr2, None) \<Rightarrow>
                      if DeltaSnapshotPeriod ssr2 < Second then (ssr2, Inr (PrevSnapshot ssr2))
                      else
                        (case NewWatcher env of
                           Some err \<Rightarrow> (ssr2, Inl (EtcdError
                             ''failed to create etcd watch client for snapshotter: %v'' err))
                         | None \<Rightarrow>
                             (ssr2\<lparr>watchCh := Some (LastRevision (PrevSnapshot ssr2) + 1)\<rparr>,
                              Inr (PrevSnapshot ssr2)))))))"

definition takeFullSnapshot ::
    "Env \<Rightarrow> bool \<Rightarrow> Snapshotter \<Rightarrow> Snapshotter \<times> (error + Snapshot)" where
  "takeFullSnapshot env isFinal ssr =
     (case takeFullSnapshot_body env isFinal ssr of
        (ssr', r) \<Rightarrow> (cleanupInMemoryEvents ssr', r))"

definition resetFullSnapshotTimer :: "Env \<Rightarrow> Snapshotter \<Rightarrow> Snapshotter \<times> error option" where
  "resetFullSnapshotTimer env ssr =
     (case scheduleNext env of
        None \<Rightarrow> (ssr, Some (ErrorString ''error in full snapshot schedule''))
      | Some effective \<Rightarrow> (ssr\<lparr>fullSnapshotTimer := Some (Sub effective (Now env))\<rparr>, None))"

definition TakeFullSnapshotAndResetTimer ::
    "Env \<Rightarrow> bool \<Rightarrow> Snapshotter \<Rightarrow> Snapshotter \<times> result" where
  "TakeFullSnapshotAndResetTimer env isFinal ssr =
     (case takeFullSnapshot env isFinal ssr of
        (ssr1, Inl err) \<Rightarrow> (ssr1, (None, Some err))
      | (ssr1, Inr s) \<Rightarrow>
          (case resetFullSnapshotTimer env ssr1 of (ssr2, err) \<Rightarrow> (ssr2, (Some s, err))))"

definition takeDeltaSnapshotAndResetTimer :: "Env \<Rightarrow> Snapshotter \<Rightarrow> Snapshotter \<times> result" where
  "takeDeltaSnapshotAndResetTimer env ssr =
     (case TakeDeltaSnapshot env ssr of
        (ssr1, Inl err) \<Rightarrow> (ssr1, (None, Some err))
      | (ssr1, Inr s) \<Rightarrow>
          (ssr1\<lparr>deltaSnapshotTimer := Some (DeltaSnapshotPeriod ssr1)\<rparr>, (s, None)))"

text \<open>
  The loop of \<open>handleDeltaWatchEvents\<close> over \<open>wr.Events\<close>: byte \<open>0x5B\<close> opens the
  JSON array before the first event, byte \<open>0x2C\<close> separates the others.
\<close>

fun aggregateEvents :: "Env \<Rightarrow> Event list \<Rightarrow> Snapshotter \<Rightarrow> Snapshotter \<times> error option" where
  "aggregateEvents env [] ssr = (ssr, None)"
| "aggregateEvents env (ev # evs) ssr =
     (case Marshal env ev of
        Inl err \<Rightarrow> (ssr, Some (Errorf ''failed to marshal events to json: %v'' err))
      | Inr jsonByte \<Rightarrow>
          aggregateEvents env evs
            (ssr\<lparr>events := (if length (events ssr) = 0 then events ssr @ [0x5B]
                             else events ssr @ [0x2C]) @ jsonByte,
                 bufferedEvents := bufferedEvents ssr @ [(ev, jsonByte)],
                 lastEventRevision := ModRevision (Kv ev)\<rparr>))"

definition handleDeltaWatchEvents ::
    "Env \<Rightarrow> WatchResponse \<Rightarrow> Snapshotter \<Rightarrow> Snapshotter \<times> error option" where
  "handleDeltaWatchEvents env wr ssr =
     (case Err wr of
        Some err \<Rightarrow> (ssr, Some err)
      | None \<Rightarrow>
         (case aggregateEvents env (Events wr) ssr of
            (ssr1, Some err) \<Rightarrow> (ssr1, Some err)
          | (ssr1, None) \<Rightarrow>
              if DeltaSnapshotMemoryLimit ssr1 \<le> int (length (events ssr1))
              then (case takeDeltaSnapshotAndResetTimer env ssr1 of
                      (ssr2, (_, err)) \<Rightarrow> (ssr2, err))
              else (ssr1, None)))"

text \<open>
  What the \<open>select\<close> of \<open>snapshotEventHandler\<close> can receive: a request for a full
  snapshot with its \<open>isFinal\<close> flag, a request for a delta snapshot, the firing of
  either timer, a value from the watch channel (\<open>None\<close> when the channel is closed),
  and the stop signal.
\<close>

datatype Msg =
    FullSnapshotReq bool
  | DeltaSnapshotReq
  | FullSnapshotTimerC
  | DeltaSnapshotTimerC
  | WatchChRecv "WatchResponse option"
  | StopCh

text \<open>
  \<open>heartbeat.DeltaSnapshotCaseLeaseUpdate\<close> under the lease renewal flag: a failure
  is logged only, so the model counts the calls. Resetting the full snapshot lease timer
  arms it with one nanosecond.
\<close>

definition deltaLeaseUpdate :: "Snapshotter \<Rightarrow> Snapshotter" where
  "deltaLeaseUpdate ssr =
     (if SnapshotLeaseRenewalEnabled ssr
      then ssr\<lparr>deltaLeaseUpdates := Suc (deltaLeaseUpdates ssr)\<rparr> else ssr)"

definition fullLeaseTimerReset :: "Snapshotter \<Rightarrow> Snapshotter" where
  "fullLeaseTimerReset ssr =
     (if SnapshotLeaseRenewalEnabled ssr
      then ssr\<lparr>FullSnapshotLeaseUpdateTimer := Some 1\<rparr> else ssr)"

text \<open>
  One iteration of the \<open>for\<close> loop of \<open>snapshotEventHandler\<close>, for the case the
  \<open>select\<close> took. The second component is \<open>None\<close> when the loop goes on and
  \<open>Some r\<close> when the function returns \<open>r\<close>. A receive from a nil watch channel
  never fires, so that case leaves the state alone.
\<close>

definition handlerCase :: "Env \<Rightarrow> Msg \<Rightarrow> Snapshotter \<Rightarrow> Snapshotter \<times> error option option" where
  "handlerCase env m ssr =
     (case m of
        FullSnapshotReq isFinal \<Rightarrow>
          (case TakeFullSnapshotAndResetTimer env isFinal ssr of
             (ssr1, (s, err)) \<Rightarrow>
               (let ssr2 = ssr1\<lparr>fullSnapshotAckCh := fullSnapshotAckCh ssr1 @ [(s, err)]\<rparr>
                in case err of
                     Some e \<Rightarrow> (ssr2\<lparr>PrevFullSnapshotSucceeded := False\<rparr>, Some (Some e))
                   | None \<Rightarrow>
                       (fullLeaseTimerReset (ssr2\<lparr>PrevFullSnapshotSucceeded := True\<rparr>), None)))
      | DeltaSnapshotReq \<Rightarrow>
          (case takeDeltaSnapshotAndResetTimer env ssr of
             (ssr1, (s, err)) \<Rightarrow>
               (let ssr2 = ssr1\<lparr>deltaSnapshotAckCh := deltaSnapshotAckCh ssr1 @ [(s, err)]\<rparr>
                in case err of
                     Some e \<Rightarrow> (ssr2, Some (Some e))
                   | None \<Rightarrow> (deltaLeaseUpdate ssr2, None)))
      | FullSnapshotTimerC \<Rightarrow>
          (case TakeFullSnapshotAndResetTimer env False ssr of
             (ssr1, (s, Some e)) \<Rightarrow> (ssr1\<lparr>PrevFullSnapshotSucceeded := False\<rparr>, Some (Some e))
           | (ssr1, (s, None)) \<Rightarrow>
               (fullLeaseTimerReset (ssr1\<lparr>PrevFullSnapshotSucceeded := True\<rparr>), None))
      | DeltaSnapshotTimerC \<Rightarrow>
          (if Second \<le> DeltaSnapshotPeriod ssr then
             (case takeDeltaSnapshotAndResetTimer env ssr of
                (ssr1, (s, Some e)) \<Rightarrow> (ssr1, Some (Some e))
              | (ssr1, (s, None)) \<Rightarrow> (deltaLeaseUpdate ssr1, None))
           else (ssr, None))
      | WatchChRecv w \<Rightarrow>
          (if watchCh ssr = None then (ssr, None)
           else case w of
                  None \<Rightarrow> (ssr, Some (Some (ErrorString ''watch channel closed'')))
                | Some wr \<Rightarrow>
                   (let snapshots = length (PrevDeltaSnapshots ssr)
                    in case handleDeltaWatchEvents env wr ssr of
                         (ssr1, Some e) \<Rightarrow> (ssr1, Some (Some e))
                       | (ssr1, None) \<Rightarrow>
                           (if snapshots < length (PrevDeltaSnapshots ssr1)
                            then deltaLeaseUpdate ssr1 else ssr1, None)))
      | StopCh \<Rightarrow> (cleanupInMemoryEvents ssr, Some None))"

text \<open>
  \<open>snapshotEventHandler\<close> over the finite sequence of cases its \<open>select\<close> takes, each
  with the answers of the collaborators at that time. \<open>Returned r\<close>: the function
  returned \<open>r\<close>; \<open>Selecting\<close>: the loop is blocked in \<open>select\<close> after the whole
  sequence.
\<close>

datatype HandlerOutcome = Returned "error option" | Selecting

fun snapshotEventHandler ::
    "(Env \<times> Msg) list \<Rightarrow> Snapshotter \<Rightarrow> Snapshotter \<times> HandlerOutcome" where
  "snapshotEventHandler [] ssr = (ssr, Selecting)"
| "snapshotEventHandler ((env, m) # rest) ssr =
     (case handlerCase env m ssr of
        (ssr1, Some r) \<Rightarrow> (ssr1, Returned r)
      | (ssr1, None) \<Rightarrow> snapshotEventHandler rest ssr1)"

text \<open>
  The bytes of a buffer that holds the JSON texts \<open>js\<close>: an opening bracket and the
  texts separated by commas, without the closing bracket; no byte for no text.
\<close>

fun arrayPrefix :: "bytes list \<Rightarrow> bytes" where
  "arrayPrefix [] = []"
| "arrayPrefix (j # js) = [0x5B] @ j @ concat (map (\<lambda>x. [0x2C] @ x) js)"

text \<open>
  The buffer, the events appended to it and \<open>lastEventRevision\<close> agree: the buffer
  holds the JSON of the appended events, in their order, as the start of a JSON array,
  and when events were appended \<open>lastEventRevision\<close> is the \<open>ModRevision\<close> of the
  last of them.
\<close>

definition bufferTracksEvents :: "Snapshotter \<Rightarrow> bool" where
  "bufferTracksEvents ssr =
     (events ssr = arrayPrefix (map snd (bufferedEvents ssr))
      \<and> (bufferedEvents ssr \<noteq> [] \<longrightarrow>
            lastEventRevision ssr = ModRevision (Kv (fst (last (bufferedEvents ssr))))))"

subsection \<open>Is a full snapshot required at startup?\<close>






section \<open>pkg/initializer\<close>

text \<open>
  The statuses of \<open>validator.Validate\<close> that \<open>Initialize\<close> names; the type is an
  integer in Go, so every other value is \<open>DataDirStatusOther\<close>.
\<close>

datatype DataDirStatus =
    DataDirectoryValid
  | WrongVolumeMounted
  | DataDirectoryCorrupt
  | DataDirectoryStatusUnknown
  | FailBelowRevisionConsistencyError
  | FailToOpenBoltDBError
  | DataDirStatusInvalidInMultiNode
  | DataDirStatusOther nat

text \<open>
  \<open>filepath.Clean\<close> of the Go library on Unix paths: the elements between slashes
  are read from the left, empty elements and \<open>.\<close> are dropped, \<open>..\<close> takes back
  the element before it (at the root it is dropped, and where nothing is left to take
  back it stays), and the empty result is \<open>.\<close>. \<open>filepath.Join\<close> of a single
  element ignores an empty element and cleans any other.
\<close>

fun splitSlash :: "string \<Rightarrow> string \<Rightarrow> string list" where
  "splitSlash cur [] = [cur]"
| "splitSlash cur (c # cs) =
     (if c = CHR ''/'' then cur # splitSlash [] cs else splitSlash (cur @ [c]) cs)"

fun cleanElements :: "bool \<Rightarrow> string list \<Rightarrow> string list \<Rightarrow> string list" where
  "cleanElements rooted kept [] = kept"
| "cleanElements rooted kept (x # xs) =
     (if x = [] \<or> x = ''.'' then cleanElements rooted kept xs
      else if x = ''..'' then
        (if kept \<noteq> [] \<and> last kept \<noteq> ''..'' then cleanElements rooted (butlast kept) xs
         else if rooted then cleanElements rooted kept xs
         else cleanElements rooted (kept @ [x]) xs)
      else cleanElements rooted (kept @ [x]) xs)"

fun joinSlash :: "string list \<Rightarrow> string" where
  "joinSlash [] = []"
| "joinSlash [x] = x"
| "joinSlash (x # y # ys) = x @ ''/'' @ joinSlash (y # ys)"

definition cleanPath :: "string \<Rightarrow> string" where
  "cleanPath path =
     (let rooted = (path \<noteq> [] \<and> hd path = CHR ''/'');
          out = (if rooted then ''/'' else [])
                  @ joinSlash (cleanElements rooted [] (splitSlash [] path))
      in if out = [] then ''.'' else out)"

definition filepath_Join :: "string \<Rightarrow> string" where
  "filepath_Join elem = (if elem = [] then [] else cleanPath elem)"

text \<open>
  The file system maps the clean path of a directory to what it holds, and a path that
  is not empty names the directory of its clean form. Containment is read off the clean
  paths: everything is under the root, and a path is under another directory when it
  is that directory or goes on from it with a slash. The model has no symbolic links,
  and it does not relate \<open>.\<close>, the paths that begin with \<open>..\<close> and the absolute
  paths to the relative ones; \<open>cleanDir\<close> holds of the directories it is meant for,
  the clean paths below the root or below the working directory.
\<close>

type_synonym content = string
type_synonym filesystem = "string \<Rightarrow> content option"

definition pathUnder :: "string \<Rightarrow> string \<Rightarrow> bool" where
  "pathUnder dir p = (dir = ''/'' \<or> p = dir \<or> take (length dir + 1) p = dir @ ''/'')"

definition cleanDir :: "string \<Rightarrow> bool" where
  "cleanDir d = (cleanPath d = d \<and> d \<noteq> ''/'' \<and> d \<noteq> ''.'' \<and> d \<noteq> ''..''
                   \<and> take 3 d \<noteq> ''../'')"

datatype StatResult = StatOk | StatNotExist | StatError error

text \<open>
  Modelled from the spec: \<open>restorer.RestoreAndStopEtcd\<close> is not among the sources.
  Section 4.7: the restorer builds the database from the base snapshot and the deltas
  at the directory it is given, and aborts on a hash mismatch, a decompression failure
  or malformed events. \<open>Restored c\<close>: it succeeded and the directory holds \<open>c\<close>;
  \<open>RestoreFailed err left\<close>: it failed with \<open>err\<close> and left \<open>left\<close> there.
\<close>

datatype RestoreOutcome = Restored content | RestoreFailed error "content option"

definition RestoreAndStopEtcd ::
    "RestoreOutcome \<Rightarrow> string \<Rightarrow> filesystem \<Rightarrow> filesystem \<times> error option" where
  "RestoreAndStopEtcd outcome dir fs =
     (case outcome of
        Restored c \<Rightarrow> (fs(cleanPath dir \<mapsto> c), None)
      | RestoreFailed err left \<Rightarrow> (fs(cleanPath dir := left), Some err))"

text \<open>
  What the collaborators of the initializer answer. \<open>RemoveAllFails path\<close> is
  \<open>None\<close> when \<open>os.RemoveAll path\<close> succeeds and otherwise the error with the
  paths it had removed before failing. \<open>retry.OnError\<close> is modelled by the result of
  its last attempt.
\<close>

record InitEnv =
  IsMultiNode :: bool
  GetKubernetesClientSetOrError :: "error option"
  WasMemberInCluster :: bool
  IsClusterScaledUp :: "error + bool"
  AddLearnerWithRetry :: "error option"
  Validate :: "DataDirStatus \<times> error option"
  RemoveMember :: "error option"
  AddMemberAsLearner :: "error option"
  InitGetSnapstore :: "error option"
  GetLatestFullSnapshotAndDeltaSnapList :: "error + (Snapshot option \<times> Snapshot list)"
  NewRestorer :: "error option"
  Restore :: RestoreOutcome
  RemoveAllFails :: "string \<Rightarrow> (error \<times> (string \<Rightarrow> bool)) option"
  StatFails :: "string \<Rightarrow> error option"
  RenameFails :: "error option"
  MkdirAllFails :: "error option"

record SnapstoreConfig =
  Provider :: string
  TempDir :: string

record EtcdInitializer =
  DataDir :: string
  Config_SnapstoreConfig :: "SnapstoreConfig option"
  OriginalClusterSize :: int

text \<open>
  The functions of the package \<open>os\<close>. The empty path names nothing: \<open>os.Stat\<close>
  does not find it, \<open>os.RemoveAll\<close> returns nil at once, \<open>os.Rename\<close> and
  \<open>os.MkdirAll\<close> fail. \<open>os.RemoveAll\<close> removes the directory and all that is
  under it. After \<open>os.Rename\<close> of a directory, what was under the old path is under
  the new one; it fails when the old path does not exist. Every other failure is the
  environment's.
\<close>

definition os_Stat :: "InitEnv \<Rightarrow> string \<Rightarrow> filesystem \<Rightarrow> StatResult" where
  "os_Stat env name fs =
     (case StatFails env name of
        Some err \<Rightarrow> StatError err
      | None \<Rightarrow> if name = [] \<or> fs (cleanPath name) = None then StatNotExist else StatOk)"

definition os_RemoveAll :: "InitEnv \<Rightarrow> string \<Rightarrow> filesystem \<Rightarrow> filesystem \<times> error option" where
  "os_RemoveAll env path fs =
     (if path = [] then (fs, None)
      else case RemoveAllFails env path of
        None \<Rightarrow> ((\<lambda>p. if pathUnder (cleanPath path) p then None else fs p), None)
      | Some (err, gone) \<Rightarrow>
          ((\<lambda>p. if pathUnder (cleanPath path) p \<and> gone p then None else fs p), Some err))"

definition os_Rename ::
    "InitEnv \<Rightarrow> string \<Rightarrow> string \<Rightarrow> filesystem \<Rightarrow> filesystem \<times> error option" where
  "os_Rename env oldpath newpath fs =
     (if oldpath = [] \<or> newpath = [] \<or> fs (cleanPath oldpath) = None
      then (fs, Some (ErrorString ''no such file or directory''))
      else case RenameFails env of
             Some err \<Rightarrow> (fs, Some err)
           | None \<Rightarrow>
               ((\<lambda>p. if pathUnder (cleanPath oldpath) p then None
                     else if pathUnder (cleanPath newpath) p
                     then fs (cleanPath oldpath @ drop (length (cleanPath newpath)) p)
                     else fs p), None))"

definition os_MkdirAll :: "InitEnv \<Rightarrow> string \<Rightarrow> filesystem \<Rightarrow> filesystem \<times> error option" where
  "os_MkdirAll env path fs =
     (if path = [] then (fs, Some (ErrorString ''no such file or directory''))
      else case MkdirAllFails env of
        Some err \<Rightarrow> (fs, Some err)
      | None \<Rightarrow> (if fs (cleanPath path) = None then fs(cleanPath path \<mapsto> []) else fs, None))"

definition removeDir :: "InitEnv \<Rightarrow> string \<Rightarrow> filesystem \<Rightarrow> filesystem \<times> error option" where
  "removeDir env dirname fs =
     (case os_RemoveAll env (filepath_Join dirname) fs of
        (fs1, Some err) \<Rightarrow>
          (fs1, Some (Errorf ''failed to remove directory %s with err: %v'' err))
      | (fs1, None) \<Rightarrow> (fs1, None))"

definition removeContents :: "InitEnv \<Rightarrow> string \<Rightarrow> filesystem \<Rightarrow> filesystem \<times> error option" where
  "removeContents env dataDir fs =
     (case removeDir env dataDir fs of
        (fs1, Some err) \<Rightarrow> (fs1, Some err)
      | (fs1, None) \<Rightarrow>
         (case os_Rename env (filepath_Join (dataDir @ ''.part''))
                 (filepath_Join dataDir) fs1 of
            (fs2, Some err) \<Rightarrow> (fs2, Some (Errorf
              ''failed to rename temp restore directory %s to data directory %s with err: %v''
              err))
          | (fs2, None) \<Rightarrow> (fs2, None)))"

definition restoreWithEmptySnapstore ::
    "InitEnv \<Rightarrow> EtcdInitializer \<Rightarrow> filesystem \<Rightarrow> filesystem \<times> (error + bool)" where
  "restoreWithEmptySnapstore env e fs =
     (let dataDir = DataDir e in
      case os_Stat env dataDir fs of
        StatNotExist \<Rightarrow> (fs, Inr False)
      | StatError err \<Rightarrow> (fs, Inl err)
      | StatOk \<Rightarrow>
         (case removeDir env dataDir fs of
            (fs1, Some err) \<Rightarrow> (fs1, Inl err)
          | (fs1, None) \<Rightarrow> (fs1, Inr True)))"

text \<open>The part of \<open>restoreCorruptData\<close> after a snapshot was found in the store.\<close>

definition restoreFromSnapshots ::
    "InitEnv \<Rightarrow> string \<Rightarrow> filesystem \<Rightarrow> filesystem \<times> (error + bool)" where
  "restoreFromSnapshots env dataDir fs =
     (let partDir = dataDir @ ''.part'' in
      case removeDir env partDir fs of
        (fs1, Some err) \<Rightarrow>
          (fs1, Inl (Errorf ''failed to delete previous temporary data directory: %v'' err))
      | (fs1, None) \<Rightarrow>
         (case NewRestorer env of
            Some err \<Rightarrow> (fs1, Inl err)
          | None \<Rightarrow>
             (case RestoreAndStopEtcd (Restore env) partDir fs1 of
                (fs2, Some err) \<Rightarrow> (fs2, Inl (Errorf ''failed to restore snapshot: %v'' err))
              | (fs2, None) \<Rightarrow>
                 (case removeContents env dataDir fs2 of
                    (fs3, Some err) \<Rightarrow> (fs3, Inl (Errorf
                      ''failed to remove corrupt contents with restored snapshot: %v'' err))
                  | (fs3, None) \<Rightarrow> (fs3, Inr True)))))"

definition restoreCorruptData ::
    "InitEnv \<Rightarrow> EtcdInitializer \<Rightarrow> filesystem \<Rightarrow> filesystem \<times> (error + bool)" where
  "restoreCorruptData env e fs =
     (let dataDir = DataDir e in
      if (case Config_SnapstoreConfig e of None \<Rightarrow> True | Some sc \<Rightarrow> length (Provider sc) = 0)
      then restoreWithEmptySnapstore env e fs
      else
        case InitGetSnapstore env of
          Some err \<Rightarrow> (fs, Inl (Errorf
            ''failed to create snapstore from configured storage provider: %v'' err))
        | None \<Rightarrow>
           (case GetLatestFullSnapshotAndDeltaSnapList env of
              Inl err \<Rightarrow> (fs, Inl err)
            | Inr (baseSnap, deltaSnapList) \<Rightarrow>
                if baseSnap = None \<and> length deltaSnapList = 0
                then restoreWithEmptySnapstore env e fs
                else restoreFromSnapshots env dataDir fs))"

definition restoreInMultiNode ::
    "InitEnv \<Rightarrow> EtcdInitializer \<Rightarrow> filesystem \<Rightarrow> filesystem \<times> error option" where
  "restoreInMultiNode env e fs =
     (case RemoveMember env of
        Some err \<Rightarrow> (fs, Some (Errorf ''unable to remove the member %v'' err))
      | None \<Rightarrow>
         (case removeDir env (DataDir e) fs of
            (fs1, Some err) \<Rightarrow> (fs1, Some (Errorf ''unable to remove the data-dir %v'' err))
          | (fs1, None) \<Rightarrow>
             (case (case os_Stat env (DataDir e) fs1 of
                      StatOk \<Rightarrow> removeDir env (DataDir e) fs1
                    | StatNotExist \<Rightarrow> (fs1, None)
                    | StatError err \<Rightarrow> (fs1, Some err)) of
                (fs2, Some err) \<Rightarrow>
                  (fs2, Some (Errorf ''unable to add the member as learner %v'' err))
              | (fs2, None) \<Rightarrow>
                 (case AddMemberAsLearner env of
                    Some err \<Rightarrow>
                      (fs2, Some (Errorf ''unable to add the member as learner %v'' err))
                  | None \<Rightarrow> (fs2, None)))))"

text \<open>
  The scale-up check that opens \<open>Initialize\<close>. \<open>logger.Fatalf\<close> ends the process:
  \<open>Exited\<close>. \<open>LearnerAdded\<close>: \<open>Initialize\<close> returns nil at once.
  \<open>Proceed b\<close>: it goes on to the validation, \<open>b\<close> being \<open>memberHeartbeatPresent\<close>.
\<close>

datatype ScaleUpCheck = Exited string | LearnerAdded | Proceed bool

definition scaleUpCheck :: "InitEnv \<Rightarrow> ScaleUpCheck" where
  "scaleUpCheck env =
     (if IsMultiNode env then
        (case GetKubernetesClientSetOrError env of
           Some err \<Rightarrow> Exited ''failed to create clientset, %v''
         | None \<Rightarrow>
             if WasMemberInCluster env then Proceed True
             else
               (case IsClusterScaledUp env of
                  Inl err \<Rightarrow> Proceed False
                | Inr isScaleup \<Rightarrow>
                    if isScaleup then
                      (case AddLearnerWithRetry env of
                         Some err \<Rightarrow> Exited ''unable to add a learner in a cluster: %v''
                       | None \<Rightarrow> LearnerAdded)
                    else Proceed False))
      else Proceed False)"

text \<open>The end of \<open>Initialize\<close>: the temporary snapshot directory is made anew.\<close>

definition resetTempDir ::
    "InitEnv \<Rightarrow> EtcdInitializer \<Rightarrow> filesystem \<Rightarrow> filesystem \<times> error option" where
  "resetTempDir env e fs =
     (case Config_SnapstoreConfig e of
        None \<Rightarrow> (fs, None)
      | Some sc \<Rightarrow>
         (case (if TempDir sc \<noteq> [] \<and> TempDir sc \<noteq> ''/tmp''
                then removeDir env (TempDir sc) fs else (fs, None)) of
            (fs1, Some err) \<Rightarrow>
              (fs1, Some (Errorf ''failed to remove directory %s with err: %v'' err))
          | (fs1, None) \<Rightarrow>
             (case os_MkdirAll env (TempDir sc) fs1 of
                (fs2, Some err) \<Rightarrow>
                  (fs2, Some (Errorf ''failed to create temporary directory %s: %w'' err))
              | (fs2, None) \<Rightarrow> (fs2, None))))"

text \<open>
  The restoration step of \<open>Initialize\<close> for a status that is not valid.
\<close>

definition restoreDataDir ::
    "InitEnv \<Rightarrow> EtcdInitializer \<Rightarrow> DataDirStatus \<Rightarrow> bool \<Rightarrow> filesystem
       \<Rightarrow> filesystem \<times> error option" where
  "restoreDataDir env e dataDirStatus memberHeartbeatPresent fs =
     (if dataDirStatus = DataDirStatusInvalidInMultiNode
         \<or> (1 < OriginalClusterSize e \<and> dataDirStatus = DataDirectoryCorrupt)
         \<or> (1 < OriginalClusterSize e \<and> memberHeartbeatPresent)
      then restoreInMultiNode env e fs
      else
        (case restoreCorruptData env e fs of
           (fs1, Inl err) \<Rightarrow>
             (fs1, Some (Errorf ''error while restoring corrupt data: %v'' err))
         | (fs1, Inr restored) \<Rightarrow> (fs1, None)))"

text \<open>
  An error built by \<open>fmt.Errorf(f, err)\<close> where \<open>err\<close> may be nil.
\<close>

definition ErrorfNilable :: "string \<Rightarrow> error option \<Rightarrow> error" where
  "ErrorfNilable f err = (case err of None \<Rightarrow> ErrorString f | Some e \<Rightarrow> Errorf f e)"

text \<open>
  \<open>Initialize\<close>. The result is \<open>Inl m\<close> when \<open>logger.Fatalf\<close> ended the process
  and \<open>Inr r\<close> when the function returned \<open>r\<close>.
\<close>

definition Initialize ::
    "InitEnv \<Rightarrow> EtcdInitializer \<Rightarrow> filesystem \<Rightarrow> filesystem \<times> (string + error option)" where
  "Initialize env e fs =
     (case scaleUpCheck env of
        Exited m \<Rightarrow> (fs, Inl m)
      | LearnerAdded \<Rightarrow> (fs, Inr None)
      | Proceed memberHeartbeatPresent \<Rightarrow>
         (case Validate env of
            (dataDirStatus, err) \<Rightarrow>
              if dataDirStatus = WrongVolumeMounted then
                (fs, Inr (Some (ErrorfNilable
                   ''won't initialize ETCD because wrong ETCD volume is mounted: %v'' err)))
              else if dataDirStatus = FailToOpenBoltDBError then
                (fs, Inr (Some (ErrorString
                   ''failed to initialize since another process still holds the file lock'')))
              else if dataDirStatus = DataDirectoryStatusUnknown then
                (fs, Inr (Some (ErrorfNilable ''error while initializing: %v'' err)))
              else if dataDirStatus = FailBelowRevisionConsistencyError then
                (fs, Inr (Some (ErrorString
                   ''failed to initialize since fail below revision check failed'')))
              else
                (case (if dataDirStatus \<noteq> DataDirectoryValid
                       then restoreDataDir env e dataDirStatus memberHeartbeatPresent fs
                       else (fs, None)) of
                   (fs1, Some err1) \<Rightarrow> (fs1, Inr (Some err1))
                 | (fs1, None) \<Rightarrow>
                     (case resetTempDir env e fs1 of (fs2, r) \<Rightarrow> (fs2, Inr r)))))"

section \<open>Construction and concrete inputs\<close>

text \<open>
  The state \<open>NewSnapshotter\<close> returns when it succeeds, from the configuration and
  the latest full snapshot and delta list found in the store: the previous snapshot is
  the last delta, or the full snapshot when there is no delta, or a dummy full snapshot
  at revision 0 when the store is empty. Fields it does not set have Go's zero value.
\<close>

definition NewSnapshotter ::
    "Time \<Rightarrow> duration \<Rightarrow> int \<Rightarrow> bool \<Rightarrow> bool \<Rightarrow> Snapshot option \<Rightarrow> Snapshot list \<Rightarrow> Snapshotter" where
  "NewSnapshotter now period memoryLimit compression leaseRenewal fullSnap deltaSnapList =
     \<lparr> lastSecretModifiedTime = zeroTime,
       store = Some 0,
       PrevSnapshot =
         (case fullSnap of
            Some f \<Rightarrow> if length deltaSnapList = 0 then f else last deltaSnapList
          | None \<Rightarrow> NewSnapshot now SnapshotKindFull 0 0 [] False),
       PrevFullSnapshot = fullSnap,
       PrevDeltaSnapshots = deltaSnapList,
       events = [],
       bufferedEvents = [],
       lastEventRevision = 0,
       SsrState = SnapshotterInactive,
       PrevFullSnapshotSucceeded = True,
       watchCh = None,
       fullSnapshotTimer = None,
       deltaSnapshotTimer = None,
       FullSnapshotLeaseUpdateTimer = None,
       DeltaSnapshotPeriod = period,
       DeltaSnapshotMemoryLimit = memoryLimit,
       compressionEnabled = compression,
       SnapshotLeaseRenewalEnabled = leaseRenewal,
       fullSnapshotReqCh = [],
       deltaSnapshotReqCh = [],
       fullSnapshotAckCh = [],
       deltaSnapshotAckCh = [],
       deltaLeaseUpdates = 0,
       saveCalls = [],
       objects = [] \<rparr>"

text \<open>
  A snapshotter over an empty store with a delta period of 20 s, a memory limit of
  10 MiB, no compression and no lease renewal, inactive and then set active.
\<close>

text \<open>
  \<open>clockReading n\<close> is a value of \<open>time.Now()\<close>, local and with a reading of the
  monotonic clock; \<open>wallTime l n\<close> is the instant \<open>n\<close> in the location \<open>l\<close> without
  one.
\<close>

definition clockReading :: "int \<Rightarrow> Time" where
  "clockReading n = \<lparr> unixNano = n, monotonic = Some n, location = Local \<rparr>"

definition wallTime :: "Location \<Rightarrow> int \<Rightarrow> Time" where
  "wallTime l n = \<lparr> unixNano = n, monotonic = None, location = l \<rparr>"

definition freshSnapshotter :: Snapshotter where
  "freshSnapshotter =
     NewSnapshotter (clockReading 0) (20 * Second) 10485760 False False None []"

definition activeSnapshotter :: Snapshotter where
  "activeSnapshotter = freshSnapshotter\<lparr>SsrState := SnapshotterActive\<rparr>"

text \<open>
  Collaborators that all succeed while the KV store is at revision \<open>revision\<close>. The
  digest and the JSON encoder are stand-ins: 32 zero bytes, and the key of the event.
\<close>

definition quietEnv :: "int64 \<Rightarrow> Env" where
  "quietEnv revision =
     \<lparr> Now = clockReading 1000,
       GetSnapstoreSecretModifiedTime = Inr zeroTime,
       GetSnapstore = Inr 0,
       GetCompressionSuffix = Inr [],
       Sum256 = (\<lambda>b. replicate 32 0),
       CompressSnapshot = (\<lambda>b. Inr b),
       Save = (\<lambda>snap rc. None),
       NewKV = None,
       GetLatestRevision = Inr revision,
       NewMaintenance = None,
       SnapshotStream = Inr [],
       NewWatcher = None,
       Marshal = (\<lambda>ev. Inr (Key (Kv ev))),
       scheduleNext = Some (wallTime Local 2000) \<rparr>"

text \<open>The same, but the snap store answers every \<open>Save\<close> with an I/O error.\<close>

definition failingStoreEnv :: "int64 \<Rightarrow> Env" where
  "failingStoreEnv revision =
     (quietEnv revision)\<lparr>Save := (\<lambda>snap rc. Some (ErrorString ''503 Service Unavailable''))\<rparr>"

text \<open>A put of key \<open>k\<close> (one byte) at revision \<open>r\<close>.\<close>

definition putEvent :: "byte \<Rightarrow> int64 \<Rightarrow> Event" where
  "putEvent k r = \<lparr> Kv = \<lparr> Key = [k], Value = [], ModRevision = r \<rparr> \<rparr>"

text \<open>
  A watch response with puts at revisions 3 and 4. The event handler of the active
  snapshotter first serves a request for a full snapshot while the KV store is at
  revision 0, which opens the watch, and then receives that response.
\<close>

definition twoPuts :: WatchResponse where
  "twoPuts = \<lparr> Err = None, Events = [putEvent 0x61 3, putEvent 0x62 4] \<rparr>"

definition watchingSnapshotter :: Snapshotter where
  "watchingSnapshotter =
     fst (snapshotEventHandler [(quietEnv 0, FullSnapshotReq False)] activeSnapshotter)"

definition bufferedSnapshotter :: Snapshotter where
  "bufferedSnapshotter =
     fst (snapshotEventHandler
            [(quietEnv 0, FullSnapshotReq False), (quietEnv 4, WatchChRecv (Some twoPuts))]
            activeSnapshotter)"




text \<open>
  A single-node member: the validator reports \<open>status\<close>, the store holds the full
  snapshot \<open>baseSnap\<close> (or nothing) and no delta, the restorer ends as \<open>outcome\<close>,
  and the file operations succeed. Its data directory holds a corrupt database.
\<close>

definition singleNodeEnv :: "DataDirStatus \<Rightarrow> Snapshot option \<Rightarrow> RestoreOutcome \<Rightarrow> InitEnv" where
  "singleNodeEnv status baseSnap outcome =
     \<lparr> IsMultiNode = False,
       GetKubernetesClientSetOrError = None,
       WasMemberInCluster = False,
       IsClusterScaledUp = Inr False,
       AddLearnerWithRetry = None,
       Validate = (status, if status = DataDirectoryValid then None
                           else Some (ErrorString ''validation failed'')),
       RemoveMember = None,
       AddMemberAsLearner = None,
       InitGetSnapstore = None,
       GetLatestFullSnapshotAndDeltaSnapList = Inr (baseSnap, []),
       NewRestorer = None,
       Restore = outcome,
       RemoveAllFails = (\<lambda>dir. None),
       StatFails = (\<lambda>p. None),
       RenameFails = None,
       MkdirAllFails = None \<rparr>"

definition singleNode :: EtcdInitializer where
  "singleNode =
     \<lparr> DataDir = ''/var/etcd/data'',
       Config_SnapstoreConfig = Some \<lparr> Provider = ''S3'', TempDir = ''/tmp'' \<rparr>,
       OriginalClusterSize = 1 \<rparr>"

definition corruptDisk :: filesystem where
  "corruptDisk = [''/var/etcd/data'' \<mapsto> ''corrupt db'']"

text \<open>
  The same directory with a member directory in it, beside what an earlier restore
  left in the \<open>.part\<close> directory.
\<close>

definition staleDisk :: filesystem where
  "staleDisk = [''/var/etcd/data'' \<mapsto> ''corrupt db'',
                ''/var/etcd/data/member'' \<mapsto> ''wal'',
                ''/var/etcd/data.part'' \<mapsto> ''stale part'']"

definition fullAtTen :: Snapshot where
  "fullAtTen = NewSnapshot (wallTime UTC 0) SnapshotKindFull 0 10 [] False"

section \<open>Properties of the cron time window\<close>

lemma Index_first: "c \<notin> set a \<Longrightarrow> Index (a @ c # b) c = int (length a)"
  by (induction a) (auto simp: Let_def)

lemma slice_after_first:
  "c \<notin> set a \<Longrightarrow> slice_from (a @ c # b) (Index (a @ c # b) c + 1) = b"
  by (simp add: Index_first slice_from_def nat_add_distrib)

lemma Contains_split: "Contains h c \<Longrightarrow> \<exists>a b. h = a @ c # b \<and> c \<notin> set a"
  unfolding Contains_def by (metis split_list_first)

text \<open>
  C8, as the code has it. The fields of a schedule are those \<open>strings.Fields\<close>
  finds. A schedule of fewer than five fields gives the default 24. For a schedule of
  five fields: a day-of-week field other than \<open>*\<close> gives \<open>24 * 7 = 168\<close>; when
  day-of-week and day-of-month are both \<open>*\<close> and the text of the hours field after
  its \<^emph>\<open>first\<close> slash parses as the float \<open>N\<close>, the result is \<open>N\<close>; every other
  schedule gives the default 24.
\<close>

theorem GetFullSnapshotMaxTimeWindow_first_slash:
  "(length (Fields spec) < 5 \<longrightarrow> GetFullSnapshotMaxTimeWindow pf spec = 24) \<and>
   (\<forall>mi h dom mon dow. Fields spec = [mi, h, dom, mon, dow] \<longrightarrow>
      (dow \<noteq> ''*'' \<longrightarrow> GetFullSnapshotMaxTimeWindow pf spec = 24 * 7) \<and>
      (dow = ''*'' \<and> dom = ''*'' \<longrightarrow>
         (\<forall>a b N. h = a @ CHR ''/'' # b \<and> CHR ''/'' \<notin> set a \<and> pf b = Some N \<longrightarrow>
            GetFullSnapshotMaxTimeWindow pf spec = N)) \<and>
      (dow = ''*'' \<and>
         \<not> (dom = ''*'' \<and> (\<exists>a b N. h = a @ CHR ''/'' # b \<and> CHR ''/'' \<notin> set a \<and> pf b = Some N))
         \<longrightarrow> GetFullSnapshotMaxTimeWindow pf spec = 24))"
proof (intro conjI allI impI)
  assume "length (Fields spec) < 5"
  then show "GetFullSnapshotMaxTimeWindow pf spec = 24"
    by (simp add: GetFullSnapshotMaxTimeWindow_def defaultFullSnapMaxTimeWindow_def)
next
  fix mi h dom mon dow
  assume f: "Fields spec = [mi, h, dom, mon, dow]" and "dow \<noteq> ''*''"
  then show "GetFullSnapshotMaxTimeWindow pf spec = 24 * 7"
    by (simp add: GetFullSnapshotMaxTimeWindow_def defaultFullSnapMaxTimeWindow_def
        dayOfWeek_def)
next
  fix mi h dom mon dow a b N
  assume f: "Fields spec = [mi, h, dom, mon, dow]" and d: "dow = ''*'' \<and> dom = ''*''"
    and h: "h = a @ CHR ''/'' # b \<and> CHR ''/'' \<notin> set a \<and> pf b = Some N"
  then have "slice_from h (Index h CHR ''/'' + 1) = b"
    using slice_after_first by blast
  with f d h show "GetFullSnapshotMaxTimeWindow pf spec = N"
    by (simp add: GetFullSnapshotMaxTimeWindow_def dayOfWeek_def dayOfMonth_def hour_def
        Contains_def)
next
  fix mi h dom mon dow
  assume f: "Fields spec = [mi, h, dom, mon, dow]"
    and n: "dow = ''*'' \<and>
      \<not> (dom = ''*'' \<and> (\<exists>a b N. h = a @ CHR ''/'' # b \<and> CHR ''/'' \<notin> set a \<and> pf b = Some N))"
  show "GetFullSnapshotMaxTimeWindow pf spec = 24"
  proof (cases "dom = ''*'' \<and> Contains h CHR ''/''")
    case False
    with f n show ?thesis
      by (auto simp add: GetFullSnapshotMaxTimeWindow_def dayOfWeek_def dayOfMonth_def hour_def
          defaultFullSnapMaxTimeWindow_def)
  next
    case True
    then obtain a b where ab: "h = a @ CHR ''/'' # b" "CHR ''/'' \<notin> set a"
      using Contains_split by blast
    then have s: "slice_from h (Index h CHR ''/'' + 1) = b"
      using slice_after_first by blast
    have "pf b = None"
    proof (rule ccontr)
      assume "pf b \<noteq> None"
      then obtain N where "pf b = Some N" by auto
      with n True ab show False by blast
    qed
    with f n True s show ?thesis
      by (simp add: GetFullSnapshotMaxTimeWindow_def dayOfWeek_def dayOfMonth_def hour_def
          defaultFullSnapMaxTimeWindow_def)
  qed
qed

text \<open>
  The schedule \<open>0 */6 * * *\<close> has the window of 6 hours, also when a no-break
  space (U+00A0, the bytes \<open>C2 A0\<close>) separates its last two fields.
\<close>

theorem GetFullSnapshotMaxTimeWindow_first_slash_witness:
  "GetFullSnapshotMaxTimeWindow parseDecimal ''0 */6 * * *'' = 6
   \<and> Fields (''0 */6 * *'' @ [CHR 0xC2, CHR 0xA0] @ ''*'')
       = [''0'', ''*/6'', ''*'', ''*'', ''*'']
   \<and> GetFullSnapshotMaxTimeWindow parseDecimal (''0 */6 * *'' @ [CHR 0xC2, CHR 0xA0] @ ''*'') = 6"
proof -
  have f: "Fields ''0 */6 * * *'' = [''0'', ''*/6'', ''*'', ''*'', ''*'']"
    by (simp add: Fields_def spaceWidth_def)
  have g: "Fields (''0 */6 * *'' @ [CHR 0xC2, CHR 0xA0] @ ''*'')
             = [''0'', ''*/6'', ''*'', ''*'', ''*'']"
    by (simp add: Fields_def spaceWidth_def)
  have p: "''*/6'' = ''*'' @ CHR ''/'' # ''6'' \<and> CHR ''/'' \<notin> set ''*''
           \<and> parseDecimal ''6'' = Some 6"
    by (simp add: parseDecimal_def isDigit_def)
  from GetFullSnapshotMaxTimeWindow_first_slash [of "''0 */6 * * *''" parseDecimal] f p
  have 1: "GetFullSnapshotMaxTimeWindow parseDecimal ''0 */6 * * *'' = 6" by blast
  from GetFullSnapshotMaxTimeWindow_first_slash
    [of "''0 */6 * *'' @ [CHR 0xC2, CHR 0xA0] @ ''*''" parseDecimal] g p
  have 2: "GetFullSnapshotMaxTimeWindow parseDecimal
             (''0 */6 * *'' @ [CHR 0xC2, CHR 0xA0] @ ''*'') = 6" by blast
  from 1 2 g show ?thesis by simp
qed

text \<open>
  C8 as stated fails on the schedule \<open>0 0-10/2,12-22/5 * * *\<close>, a valid cron
  expression whose hours field is a list of two stepped ranges: it has five fields, its
  day-of-month and day-of-week are \<open>*\<close>, its hours field holds a slash and the text
  after the last slash parses as 5, yet the result is the default 24 and not 5. The
  text after the first slash, \<open>2,12-22/5\<close>, is no number.
\<close>

theorem GetFullSnapshotMaxTimeWindow_last_slash_counterexample:
  "Fields ''0 0-10/2,12-22/5 * * *'' = [''0'', ''0-10/2,12-22/5'', ''*'', ''*'', ''*'']
   \<and> Contains ''0-10/2,12-22/5'' CHR ''/''
   \<and> parseDecimal (slice_from ''0-10/2,12-22/5''
          (LastIndex ''0-10/2,12-22/5'' CHR ''/'' + 1)) = Some 5
   \<and> GetFullSnapshotMaxTimeWindow parseDecimal ''0 0-10/2,12-22/5 * * *'' = 24
   \<and> GetFullSnapshotMaxTimeWindow parseDecimal ''0 0-10/2,12-22/5 * * *'' \<noteq> 5"
  by (simp add: GetFullSnapshotMaxTimeWindow_def Fields_def spaceWidth_def hour_def
      dayOfMonth_def dayOfWeek_def Contains_def slice_from_def LastIndex_def
      parseDecimal_def isDigit_def defaultFullSnapMaxTimeWindow_def)

section \<open>Properties of the delta snapshot\<close>

lemma sint_succ_le:
  fixes p l :: "64 word"
  assumes "sint p < sint l"
  shows "sint (p + 1) \<le> sint l"
proof -
  have ub: "sint l < 2 ^ 63" using sint_lt [of l] by simp
  have lb: "- (2 ^ 63) \<le> sint p" using sint_ge [of p] by simp
  have "sint (p + 1) = signed_take_bit 63 (sint p + 1)"
    by (simp add: sint_word_ariths)
  also have "\<dots> = sint p + 1"
    using assms ub lb by (intro signed_take_bit_int_eq_self) auto
  finally show ?thesis using assms by simp
qed

lemma refreshStore_frame:
  assumes "refreshStore env ssr = (ssr', r)"
  shows "events ssr' = events ssr" "lastEventRevision ssr' = lastEventRevision ssr"
    "PrevSnapshot ssr' = PrevSnapshot ssr" "PrevFullSnapshot ssr' = PrevFullSnapshot ssr"
    "PrevDeltaSnapshots ssr' = PrevDeltaSnapshots ssr" "saveCalls ssr' = saveCalls ssr"
    "objects ssr' = objects ssr" "compressionEnabled ssr' = compressionEnabled ssr"
    "DeltaSnapshotPeriod ssr' = DeltaSnapshotPeriod ssr"
    "fullSnapshotAckCh ssr' = fullSnapshotAckCh ssr"
    "deltaSnapshotAckCh ssr' = deltaSnapshotAckCh ssr"
  using assms
  by (auto simp: refreshStore_def hasSnapStoreSecretUpdated_def
      split: sum.splits if_splits)

lemma refreshStore_result_events:
  "snd (refreshStore env (ssr\<lparr>events := b\<rparr>)) = snd (refreshStore env ssr)"
  by (auto simp: refreshStore_def hasSnapStoreSecretUpdated_def split: sum.splits)

text \<open>
  Every call of \<open>Save\<close> by \<open>TakeDeltaSnapshot\<close>: the snapshot and the payload it is
  handed.
\<close>

lemma TakeDeltaSnapshot_body_cases:
  assumes "TakeDeltaSnapshot_body env ssr = (ssr', r)"
  shows "saveCalls ssr' = saveCalls ssr
     \<or> (events ssr \<noteq> [] \<and> (\<exists>sfx rc. GetCompressionSuffix env = Inr sfx
          \<and> saveCalls ssr' = saveCalls ssr @
               [(NewSnapshot (Now env) SnapshotKindDelta (LastRevision (PrevSnapshot ssr) + 1)
                   (lastEventRevision ssr) sfx False, rc)]
          \<and> (if compressionEnabled ssr
               then CompressSnapshot env
                      (events ssr @ [0x5D] @ Sum256 env (events ssr @ [0x5D])) = Inr rc
               else rc = events ssr @ [0x5D] @ Sum256 env (events ssr @ [0x5D]))))"
proof (cases "events ssr = []")
  case True
  with assms show ?thesis by (simp add: TakeDeltaSnapshot_body_def)
next
  case False
  obtain ssr2 r2 where rs: "refreshStore env (ssr\<lparr>events := events ssr @ [0x5D]\<rparr>) = (ssr2, r2)"
    by (cases "refreshStore env (ssr\<lparr>events := events ssr @ [0x5D]\<rparr>)")
  note fr = refreshStore_frame [OF rs]
  from assms False rs fr show ?thesis
    unfolding TakeDeltaSnapshot_body_def Let_def store_Save_def
    by (auto split: option.splits sum.splits if_splits)
qed

lemma TakeDeltaSnapshot_save_cases:
  "saveCalls (fst (TakeDeltaSnapshot env ssr)) = saveCalls ssr
     \<or> (events ssr \<noteq> [] \<and> (\<exists>sfx rc. GetCompressionSuffix env = Inr sfx
          \<and> saveCalls (fst (TakeDeltaSnapshot env ssr)) = saveCalls ssr @
               [(NewSnapshot (Now env) SnapshotKindDelta (LastRevision (PrevSnapshot ssr) + 1)
                   (lastEventRevision ssr) sfx False, rc)]
          \<and> (if compressionEnabled ssr
               then CompressSnapshot env
                      (events ssr @ [0x5D] @ Sum256 env (events ssr @ [0x5D])) = Inr rc
               else rc = events ssr @ [0x5D] @ Sum256 env (events ssr @ [0x5D]))))"
proof -
  obtain s1 r1 where b: "TakeDeltaSnapshot_body env ssr = (s1, r1)"
    by (cases "TakeDeltaSnapshot_body env ssr")
  have "saveCalls (fst (TakeDeltaSnapshot env ssr)) = saveCalls s1"
    by (simp add: TakeDeltaSnapshot_def b cleanupInMemoryEvents_def)
  with TakeDeltaSnapshot_body_cases [OF b] show ?thesis by simp
qed

lemma TakeDeltaSnapshot_saves:
  assumes "events ssr \<noteq> []" and "snd (refreshStore env ssr) = None"
    and "GetCompressionSuffix env = Inr sfx"
    and "compressionEnabled ssr \<longrightarrow>
           CompressSnapshot env (events ssr @ [0x5D] @ Sum256 env (events ssr @ [0x5D])) = Inr z"
  shows "saveCalls (fst (TakeDeltaSnapshot env ssr)) = saveCalls ssr @
           [(NewSnapshot (Now env) SnapshotKindDelta (LastRevision (PrevSnapshot ssr) + 1)
               (lastEventRevision ssr) sfx False,
             if compressionEnabled ssr then z
             else events ssr @ [0x5D] @ Sum256 env (events ssr @ [0x5D]))]"
proof -
  obtain ssr2 r2 where rs: "refreshStore env (ssr\<lparr>events := events ssr @ [0x5D]\<rparr>) = (ssr2, r2)"
    by (cases "refreshStore env (ssr\<lparr>events := events ssr @ [0x5D]\<rparr>)")
  note fr = refreshStore_frame [OF rs]
  have "r2 = None"
    using rs assms(2)
      refreshStore_result_events [where env = env and ssr = ssr and b = "events ssr @ [0x5D]"]
    by simp
  with assms rs fr show ?thesis
    unfolding TakeDeltaSnapshot_def TakeDeltaSnapshot_body_def Let_def store_Save_def
      cleanupInMemoryEvents_def
    by (auto split: option.splits sum.splits if_splits)
qed

lemma aggregateEvents_frame:
  "aggregateEvents env evs ssr = (ssr', r) \<Longrightarrow>
     PrevSnapshot ssr' = PrevSnapshot ssr \<and> saveCalls ssr' = saveCalls ssr
     \<and> DeltaSnapshotMemoryLimit ssr' = DeltaSnapshotMemoryLimit ssr"
  by (induction evs arbitrary: ssr) (auto split: sum.splits)

lemma aggregateEvents_last:
  "aggregateEvents env evs ssr = (ssr', None) \<Longrightarrow> evs \<noteq> [] \<Longrightarrow>
     events ssr' \<noteq> [] \<and> lastEventRevision ssr' = ModRevision (Kv (last evs))"
proof (induction evs arbitrary: ssr)
  case Nil
  then show ?case by simp
next
  case (Cons ev evs)
  from Cons.prems(1) obtain jsonByte where m: "Marshal env ev = Inr jsonByte"
    by (cases "Marshal env ev") simp_all
  define s1 where "s1 = ssr\<lparr>events := (if length (events ssr) = 0 then events ssr @ [0x5B]
                             else events ssr @ [0x2C]) @ jsonByte,
                 bufferedEvents := bufferedEvents ssr @ [(ev, jsonByte)],
                 lastEventRevision := ModRevision (Kv ev)\<rparr>"
  from Cons.prems(1) m have step: "aggregateEvents env evs s1 = (ssr', None)"
    by (simp add: s1_def)
  show ?case
  proof (cases "evs = []")
    case True
    with step have "ssr' = s1" by simp
    then show ?thesis using True by (simp add: s1_def)
  next
    case False
    with Cons.IH [OF step] show ?thesis by simp
  qed
qed

text \<open>
  Every operation keeps the buffer, the appended events and \<open>lastEventRevision\<close> in
  agreement: an appended event extends all three, and every snapshot empties the
  buffer.
\<close>

lemma arrayPrefix_snoc:
  "arrayPrefix (js @ [j]) = (if js = [] then [0x5B] else arrayPrefix js @ [0x2C]) @ j"
  by (cases js) simp_all

lemma arrayPrefix_empty: "arrayPrefix js = [] \<longleftrightarrow> js = []"
  by (cases js) simp_all

lemma tracked_buffer_empty:
  "bufferTracksEvents ssr \<Longrightarrow> events ssr = [] \<longleftrightarrow> bufferedEvents ssr = []"
  by (simp add: bufferTracksEvents_def arrayPrefix_empty)

lemma aggregateEvents_inv:
  "bufferTracksEvents ssr \<Longrightarrow> aggregateEvents env evs ssr = (ssr', r) \<Longrightarrow>
     bufferTracksEvents ssr'"
proof (induction evs arbitrary: ssr)
  case Nil
  then show ?case by simp
next
  case (Cons ev evs)
  show ?case
  proof (cases "Marshal env ev")
    case (Inl err)
    with Cons.prems show ?thesis by simp
  next
    case (Inr jsonByte)
    define s1 where "s1 = ssr\<lparr>events := (if length (events ssr) = 0 then events ssr @ [0x5B]
                             else events ssr @ [0x2C]) @ jsonByte,
                 bufferedEvents := bufferedEvents ssr @ [(ev, jsonByte)],
                 lastEventRevision := ModRevision (Kv ev)\<rparr>"
    from Cons.prems(2) Inr have step: "aggregateEvents env evs s1 = (ssr', r)"
      by (simp add: s1_def)
    have e: "events ssr = arrayPrefix (map snd (bufferedEvents ssr))"
      using Cons.prems(1) by (simp add: bufferTracksEvents_def)
    have "events s1 = arrayPrefix (map snd (bufferedEvents s1))"
      using e by (simp add: s1_def arrayPrefix_snoc arrayPrefix_empty)
    moreover have "lastEventRevision s1 = ModRevision (Kv (fst (last (bufferedEvents s1))))"
      by (simp add: s1_def)
    ultimately have "bufferTracksEvents s1"
      by (simp add: bufferTracksEvents_def)
    from Cons.IH [OF this step] show ?thesis .
  qed
qed

lemma empty_buffer_inv:
  "events ssr = [] \<Longrightarrow> bufferedEvents ssr = [] \<Longrightarrow> bufferTracksEvents ssr"
  by (simp add: bufferTracksEvents_def)

lemma inv_frame:
  "bufferTracksEvents ssr \<Longrightarrow> events ssr' = events ssr \<Longrightarrow>
     bufferedEvents ssr' = bufferedEvents ssr \<Longrightarrow>
     lastEventRevision ssr' = lastEventRevision ssr \<Longrightarrow> bufferTracksEvents ssr'"
  by (simp add: bufferTracksEvents_def)

lemma TakeDeltaSnapshot_empties:
  "events (fst (TakeDeltaSnapshot env ssr)) = []
   \<and> bufferedEvents (fst (TakeDeltaSnapshot env ssr)) = []"
  by (simp add: TakeDeltaSnapshot_def cleanupInMemoryEvents_def split: prod.splits)

lemma takeFullSnapshot_empties:
  "events (fst (takeFullSnapshot env isFinal ssr)) = []
   \<and> bufferedEvents (fst (takeFullSnapshot env isFinal ssr)) = []"
  by (simp add: takeFullSnapshot_def cleanupInMemoryEvents_def split: prod.splits)

lemma delta_timer_empties:
  "events (fst (takeDeltaSnapshotAndResetTimer env ssr)) = []
   \<and> bufferedEvents (fst (takeDeltaSnapshotAndResetTimer env ssr)) = []"
  by (simp add: takeDeltaSnapshotAndResetTimer_def TakeDeltaSnapshot_def
      cleanupInMemoryEvents_def split: prod.splits sum.splits)

lemma full_timer_empties:
  "events (fst (TakeFullSnapshotAndResetTimer env isFinal ssr)) = []
   \<and> bufferedEvents (fst (TakeFullSnapshotAndResetTimer env isFinal ssr)) = []"
  by (simp add: TakeFullSnapshotAndResetTimer_def takeFullSnapshot_def
      resetFullSnapshotTimer_def cleanupInMemoryEvents_def
      split: prod.splits sum.splits option.splits)

lemma handleDeltaWatchEvents_inv:
  assumes "bufferTracksEvents ssr" and "handleDeltaWatchEvents env wr ssr = (ssr', r)"
  shows "bufferTracksEvents ssr'"
proof (cases "Err wr")
  case (Some err)
  with assms show ?thesis by (simp add: handleDeltaWatchEvents_def)
next
  case None
  obtain s1 r1 where ag: "aggregateEvents env (Events wr) ssr = (s1, r1)"
    by (cases "aggregateEvents env (Events wr) ssr")
  note i1 = aggregateEvents_inv [OF assms(1) ag]
  show ?thesis
  proof (cases "r1 = None \<and> DeltaSnapshotMemoryLimit s1 \<le> int (length (events s1))")
    case True
    with assms(2) None ag have "ssr' = fst (takeDeltaSnapshotAndResetTimer env s1)"
      by (simp add: handleDeltaWatchEvents_def split: prod.splits)
    then show ?thesis using delta_timer_empties [of env s1] empty_buffer_inv by simp
  next
    case False
    with assms(2) None ag have "ssr' = s1"
      by (cases r1) (auto simp: handleDeltaWatchEvents_def)
    with i1 show ?thesis by simp
  qed
qed

lemma handlerCase_inv:
  assumes "bufferTracksEvents ssr" and "handlerCase env m ssr = (ssr', r)"
  shows "bufferTracksEvents ssr'"
proof (cases m)
  case (FullSnapshotReq isFinal)
  obtain s1 res where t: "TakeFullSnapshotAndResetTimer env isFinal ssr = (s1, res)"
    by (cases "TakeFullSnapshotAndResetTimer env isFinal ssr")
  have "events s1 = [] \<and> bufferedEvents s1 = []"
    using full_timer_empties [of env isFinal ssr] t by simp
  with assms(2) FullSnapshotReq t have "events ssr' = [] \<and> bufferedEvents ssr' = []"
    by (auto simp: handlerCase_def Let_def fullLeaseTimerReset_def
        split: prod.splits option.splits if_splits)
  then show ?thesis using empty_buffer_inv by blast
next
  case DeltaSnapshotReq
  obtain s1 res where t: "takeDeltaSnapshotAndResetTimer env ssr = (s1, res)"
    by (cases "takeDeltaSnapshotAndResetTimer env ssr")
  have "events s1 = [] \<and> bufferedEvents s1 = []"
    using delta_timer_empties [of env ssr] t by simp
  with assms(2) DeltaSnapshotReq t have "events ssr' = [] \<and> bufferedEvents ssr' = []"
    by (auto simp: handlerCase_def Let_def deltaLeaseUpdate_def
        split: prod.splits option.splits if_splits)
  then show ?thesis using empty_buffer_inv by blast
next
  case FullSnapshotTimerC
  obtain s1 res where t: "TakeFullSnapshotAndResetTimer env False ssr = (s1, res)"
    by (cases "TakeFullSnapshotAndResetTimer env False ssr")
  have "events s1 = [] \<and> bufferedEvents s1 = []"
    using full_timer_empties [of env False ssr] t by simp
  with assms(2) FullSnapshotTimerC t have "events ssr' = [] \<and> bufferedEvents ssr' = []"
    by (auto simp: handlerCase_def Let_def fullLeaseTimerReset_def
        split: prod.splits option.splits if_splits)
  then show ?thesis using empty_buffer_inv by blast
next
  case DeltaSnapshotTimerC
  show ?thesis
  proof (cases "Second \<le> DeltaSnapshotPeriod ssr")
    case True
    obtain s1 res where t: "takeDeltaSnapshotAndResetTimer env ssr = (s1, res)"
      by (cases "takeDeltaSnapshotAndResetTimer env ssr")
    have "events s1 = [] \<and> bufferedEvents s1 = []"
      using delta_timer_empties [of env ssr] t by simp
    with assms(2) DeltaSnapshotTimerC True t
    have "events ssr' = [] \<and> bufferedEvents ssr' = []"
      by (auto simp: handlerCase_def Let_def deltaLeaseUpdate_def
          split: prod.splits option.splits if_splits)
    then show ?thesis using empty_buffer_inv by blast
  next
    case False
    with assms DeltaSnapshotTimerC show ?thesis by (simp add: handlerCase_def)
  qed
next
  case (WatchChRecv w)
  show ?thesis
  proof (cases "watchCh ssr = None \<or> w = None")
    case True
    with assms(2) WatchChRecv have "ssr' = ssr"
      by (auto simp: handlerCase_def split: option.splits if_splits)
    with assms(1) show ?thesis by simp
  next
    case False
    then obtain wr where w: "w = Some wr" by auto
    obtain s1 r1 where h: "handleDeltaWatchEvents env wr ssr = (s1, r1)"
      by (cases "handleDeltaWatchEvents env wr ssr")
    note i1 = handleDeltaWatchEvents_inv [OF assms(1) h]
    from assms(2) WatchChRecv False w h
    have "events ssr' = events s1 \<and> bufferedEvents ssr' = bufferedEvents s1
            \<and> lastEventRevision ssr' = lastEventRevision s1"
      by (auto simp: handlerCase_def Let_def deltaLeaseUpdate_def
          split: option.splits if_splits)
    with i1 show ?thesis using inv_frame by blast
  qed
next
  case StopCh
  with assms(2) have "events ssr' = [] \<and> bufferedEvents ssr' = []"
    by (auto simp: handlerCase_def cleanupInMemoryEvents_def)
  then show ?thesis using empty_buffer_inv by blast
qed

lemma snapshotEventHandler_inv:
  "bufferTracksEvents ssr \<Longrightarrow> snapshotEventHandler msgs ssr = (ssr', out) \<Longrightarrow>
     bufferTracksEvents ssr'"
proof (induction msgs arbitrary: ssr)
  case Nil
  then show ?case by simp
next
  case (Cons em msgs)
  obtain env m where em: "em = (env, m)" by (cases em)
  obtain s1 r1 where h: "handlerCase env m ssr = (s1, r1)"
    by (cases "handlerCase env m ssr")
  note i1 = handlerCase_inv [OF Cons.prems(1) h]
  show ?case
  proof (cases r1)
    case None
    with Cons.prems(2) em h have "snapshotEventHandler msgs s1 = (ssr', out)" by simp
    from Cons.IH [OF i1 this] show ?thesis .
  next
    case (Some r)
    with Cons.prems(2) em h have "ssr' = s1" by simp
    with i1 show ?thesis by simp
  qed
qed

lemma NewSnapshotter_inv:
  "bufferTracksEvents
     (NewSnapshotter now period memoryLimit compression leaseRenewal fullSnap deltaSnapList)"
  by (simp add: bufferTracksEvents_def NewSnapshotter_def)

text \<open>The definitions a concrete run unfolds.\<close>

lemmas eval_defs =
  bufferedSnapshotter_def watchingSnapshotter_def handleDeltaWatchEvents_def twoPuts_def
  putEvent_def activeSnapshotter_def freshSnapshotter_def NewSnapshotter_def NewSnapshot_def
  quietEnv_def failingStoreEnv_def
  takeDeltaSnapshotAndResetTimer_def TakeDeltaSnapshot_def TakeDeltaSnapshot_body_def
  cleanupInMemoryEvents_def refreshStore_def hasSnapStoreSecretUpdated_def store_Save_def
  handlerCase_def TakeFullSnapshotAndResetTimer_def takeFullSnapshot_def
  takeFullSnapshot_body_def saveFullSnapshot_def TakeAndSaveFullSnapshot_def
  resetFullSnapshotTimer_def fullLeaseTimerReset_def deltaLeaseUpdate_def closeEtcdClient_def
  clockReading_def wallTime_def zeroTime_def Sub_def After_def saturate_def
  Second_def Let_def

text \<open>
  C1. Whenever \<open>TakeDeltaSnapshot\<close> hands a snapshot to the snap store, the event
  buffer was not empty and the snapshot is a Delta with
  \<open>StartRevision = PrevSnapshot.LastRevision + 1\<close> (in 64-bit arithmetic) and
  \<open>LastRevision = lastEventRevision\<close>; so \<open>StartRevision \<le> LastRevision\<close> as signed
  numbers when the last buffered revision is above the previous snapshot's
  \<open>LastRevision\<close>. In a state that \<open>handleDeltaWatchEvents\<close> returns without an
  error and with a buffer that is not empty, for a response with events,
  \<open>lastEventRevision\<close> is the \<open>ModRevision\<close> of the last event of the response.
  More generally, in a state where the buffer holds the JSON of the events appended to
  it and \<open>lastEventRevision\<close> is the \<open>ModRevision\<close> of the last of them, the
  snapshot handed to the snap store ends at the \<open>ModRevision\<close> of the last event
  appended; and the states the snapshotter reaches are such states: the one
  \<open>NewSnapshotter\<close> returns is, and the loop that appends events,
  \<open>handleDeltaWatchEvents\<close> and every run of the event handler lead from such a
  state to such a state.
\<close>

theorem TakeDeltaSnapshot_revisions:
  "(\<forall>snap rc. saveCalls (fst (TakeDeltaSnapshot env ssr)) = saveCalls ssr @ [(snap, rc)] \<longrightarrow>
      events ssr \<noteq> []
      \<and> Kind snap = SnapshotKindDelta
      \<and> StartRevision snap = LastRevision (PrevSnapshot ssr) + 1
      \<and> LastRevision snap = lastEventRevision ssr
      \<and> (sint (LastRevision (PrevSnapshot ssr)) < sint (lastEventRevision ssr) \<longrightarrow>
           sint (StartRevision snap) \<le> sint (LastRevision snap)))
   \<and> (\<forall>ssr0 env0 wr. Events wr \<noteq> [] \<and> handleDeltaWatchEvents env0 wr ssr0 = (ssr, None)
         \<and> events ssr \<noteq> [] \<longrightarrow>
           lastEventRevision ssr = ModRevision (Kv (last (Events wr)))
           \<and> PrevSnapshot ssr = PrevSnapshot ssr0)
   \<and> (\<forall>snap rc. bufferTracksEvents ssr
         \<and> saveCalls (fst (TakeDeltaSnapshot env ssr)) = saveCalls ssr @ [(snap, rc)] \<longrightarrow>
           bufferedEvents ssr \<noteq> []
           \<and> LastRevision snap = ModRevision (Kv (fst (last (bufferedEvents ssr))))
           \<and> (sint (LastRevision (PrevSnapshot ssr))
                 < sint (ModRevision (Kv (fst (last (bufferedEvents ssr))))) \<longrightarrow>
                sint (StartRevision snap) \<le> sint (LastRevision snap)))
   \<and> bufferTracksEvents
        (NewSnapshotter now period memoryLimit compression leaseRenewal fullSnap deltaSnapList)
   \<and> (\<forall>ssr0 env0 evs r. bufferTracksEvents ssr0 \<and> aggregateEvents env0 evs ssr0 = (ssr, r) \<longrightarrow>
         bufferTracksEvents ssr)
   \<and> (\<forall>ssr0 env0 wr r. bufferTracksEvents ssr0
         \<and> handleDeltaWatchEvents env0 wr ssr0 = (ssr, r) \<longrightarrow> bufferTracksEvents ssr)
   \<and> (\<forall>ssr0 msgs out. bufferTracksEvents ssr0
         \<and> snapshotEventHandler msgs ssr0 = (ssr, out) \<longrightarrow> bufferTracksEvents ssr)"
proof -
  have a: "events ssr \<noteq> []
      \<and> Kind snap = SnapshotKindDelta
      \<and> StartRevision snap = LastRevision (PrevSnapshot ssr) + 1
      \<and> LastRevision snap = lastEventRevision ssr
      \<and> (sint (LastRevision (PrevSnapshot ssr)) < sint (lastEventRevision ssr) \<longrightarrow>
           sint (StartRevision snap) \<le> sint (LastRevision snap))"
    if c: "saveCalls (fst (TakeDeltaSnapshot env ssr)) = saveCalls ssr @ [(snap, rc)]"
    for snap rc
  proof -
    from c TakeDeltaSnapshot_save_cases [of env ssr]
    obtain sfx where s: "events ssr \<noteq> []"
      "snap = NewSnapshot (Now env) SnapshotKindDelta (LastRevision (PrevSnapshot ssr) + 1)
                (lastEventRevision ssr) sfx False"
      by auto
    have "sint (StartRevision snap) \<le> sint (LastRevision snap)"
      if "sint (LastRevision (PrevSnapshot ssr)) < sint (lastEventRevision ssr)"
      using that sint_succ_le by (simp add: s NewSnapshot_def)
    then show ?thesis by (simp add: s NewSnapshot_def)
  qed
  have b: "lastEventRevision ssr = ModRevision (Kv (last (Events wr)))
           \<and> PrevSnapshot ssr = PrevSnapshot ssr0"
    if h: "handleDeltaWatchEvents env0 wr ssr0 = (ssr, None)"
      and ne: "events ssr \<noteq> []" and nw: "Events wr \<noteq> []"
    for ssr0 env0 wr
  proof -
    obtain s1 r1 where ag: "aggregateEvents env0 (Events wr) ssr0 = (s1, r1)"
      by (cases "aggregateEvents env0 (Events wr) ssr0")
    have ev: "events (fst (takeDeltaSnapshotAndResetTimer env0 s1)) = []"
      using delta_timer_empties by simp
    have e: "Err wr = None"
      using h by (cases "Err wr") (simp_all add: handleDeltaWatchEvents_def)
    have r: "r1 = None"
      using h e ag by (cases r1) (simp_all add: handleDeltaWatchEvents_def)
    have "s1 = ssr"
    proof (cases "DeltaSnapshotMemoryLimit s1 \<le> int (length (events s1))")
      case True
      with h e ag r have "fst (takeDeltaSnapshotAndResetTimer env0 s1) = ssr"
        by (simp add: handleDeltaWatchEvents_def split: prod.splits)
      with ev ne show ?thesis by simp
    next
      case False
      with h e ag r show ?thesis by (simp add: handleDeltaWatchEvents_def)
    qed
    with ag r have ag': "aggregateEvents env0 (Events wr) ssr0 = (ssr, None)" by simp
    show ?thesis
      using aggregateEvents_last [OF ag' nw] aggregateEvents_frame [OF ag'] by simp
  qed
  have c: "bufferedEvents ssr \<noteq> []
           \<and> LastRevision snap = ModRevision (Kv (fst (last (bufferedEvents ssr))))
           \<and> (sint (LastRevision (PrevSnapshot ssr))
                 < sint (ModRevision (Kv (fst (last (bufferedEvents ssr))))) \<longrightarrow>
                sint (StartRevision snap) \<le> sint (LastRevision snap))"
    if t: "bufferTracksEvents ssr"
      and sc: "saveCalls (fst (TakeDeltaSnapshot env ssr)) = saveCalls ssr @ [(snap, rc)]"
    for snap rc
  proof -
    note a1 = a [OF sc]
    from a1 tracked_buffer_empty [OF t] have n: "bufferedEvents ssr \<noteq> []" by simp
    with t have l: "lastEventRevision ssr = ModRevision (Kv (fst (last (bufferedEvents ssr))))"
      by (simp add: bufferTracksEvents_def)
    show ?thesis unfolding l [symmetric] using a1 n by blast
  qed
  have d: "bufferTracksEvents
        (NewSnapshotter now period memoryLimit compression leaseRenewal fullSnap deltaSnapList)"
    by (rule NewSnapshotter_inv)
  have e: "\<forall>ssr0 env0 evs r. bufferTracksEvents ssr0
         \<and> aggregateEvents env0 evs ssr0 = (ssr, r) \<longrightarrow> bufferTracksEvents ssr"
    using aggregateEvents_inv by blast
  have f: "\<forall>ssr0 env0 wr r. bufferTracksEvents ssr0
         \<and> handleDeltaWatchEvents env0 wr ssr0 = (ssr, r) \<longrightarrow> bufferTracksEvents ssr"
    using handleDeltaWatchEvents_inv by blast
  have g: "\<forall>ssr0 msgs out. bufferTracksEvents ssr0
         \<and> snapshotEventHandler msgs ssr0 = (ssr, out) \<longrightarrow> bufferTracksEvents ssr"
    using snapshotEventHandler_inv by blast
  have a': "\<forall>snap rc. saveCalls (fst (TakeDeltaSnapshot env ssr)) = saveCalls ssr @ [(snap, rc)]
      \<longrightarrow> events ssr \<noteq> []
      \<and> Kind snap = SnapshotKindDelta
      \<and> StartRevision snap = LastRevision (PrevSnapshot ssr) + 1
      \<and> LastRevision snap = lastEventRevision ssr
      \<and> (sint (LastRevision (PrevSnapshot ssr)) < sint (lastEventRevision ssr) \<longrightarrow>
           sint (StartRevision snap) \<le> sint (LastRevision snap))"
    using a by blast
  have b': "\<forall>ssr0 env0 wr. Events wr \<noteq> [] \<and> handleDeltaWatchEvents env0 wr ssr0 = (ssr, None)
         \<and> events ssr \<noteq> [] \<longrightarrow>
           lastEventRevision ssr = ModRevision (Kv (last (Events wr)))
           \<and> PrevSnapshot ssr = PrevSnapshot ssr0"
    using b by blast
  have c': "\<forall>snap rc. bufferTracksEvents ssr
         \<and> saveCalls (fst (TakeDeltaSnapshot env ssr)) = saveCalls ssr @ [(snap, rc)] \<longrightarrow>
           bufferedEvents ssr \<noteq> []
           \<and> LastRevision snap = ModRevision (Kv (fst (last (bufferedEvents ssr))))
           \<and> (sint (LastRevision (PrevSnapshot ssr))
                 < sint (ModRevision (Kv (fst (last (bufferedEvents ssr))))) \<longrightarrow>
                sint (StartRevision snap) \<le> sint (LastRevision snap))"
    using c by blast
  from a' b' c' d e f g show ?thesis by (intro conjI)
qed

text \<open>
  After a full snapshot at revision 0 and puts at revisions 3 and 4, the buffer holds
  the two events and the delta snapshot runs from revision 1 to revision 4.
\<close>

theorem TakeDeltaSnapshot_revisions_witness:
  "handleDeltaWatchEvents (quietEnv 4) twoPuts watchingSnapshotter = (bufferedSnapshotter, None)
   \<and> lastEventRevision bufferedSnapshotter = 4
   \<and> bufferTracksEvents bufferedSnapshotter
   \<and> map fst (bufferedEvents bufferedSnapshotter) = [putEvent 0x61 3, putEvent 0x62 4]
   \<and> (\<exists>snap rc. saveCalls (fst (TakeDeltaSnapshot (quietEnv 4) bufferedSnapshotter)) =
          saveCalls bufferedSnapshotter @ [(snap, rc)]
        \<and> StartRevision snap = 1 \<and> LastRevision snap = 4
        \<and> LastRevision snap
            = ModRevision (Kv (fst (last (bufferedEvents bufferedSnapshotter))))
        \<and> sint (StartRevision snap) \<le> sint (LastRevision snap))"
proof -
  let ?snap = "NewSnapshot (clockReading 1000) SnapshotKindDelta 1 4 [] False"
  let ?rc = "[0x5B, 0x61, 0x2C, 0x62, 0x5D] @ replicate 32 (0::byte)"
  let ?msgs = "[(quietEnv 0, FullSnapshotReq False), (quietEnv 4, WatchChRecv (Some twoPuts))]"
  have h: "handleDeltaWatchEvents (quietEnv 4) twoPuts watchingSnapshotter
             = (bufferedSnapshotter, None)"
    by (simp add: eval_defs)
  have r: "snapshotEventHandler ?msgs activeSnapshotter = (bufferedSnapshotter, Selecting)"
    by (simp add: eval_defs)
  have e: "Events twoPuts \<noteq> []" "events bufferedSnapshotter \<noteq> []"
    "ModRevision (Kv (last (Events twoPuts))) = 4"
    by (simp_all add: eval_defs)
  have m: "map fst (bufferedEvents bufferedSnapshotter) = [putEvent 0x61 3, putEvent 0x62 4]"
    by (simp add: eval_defs)
  have p: "sint (LastRevision (PrevSnapshot bufferedSnapshotter))
             < sint (lastEventRevision bufferedSnapshotter)"
    by (simp add: eval_defs)
  have s: "saveCalls (fst (TakeDeltaSnapshot (quietEnv 4) bufferedSnapshotter)) =
             saveCalls bufferedSnapshotter @ [(?snap, ?rc)]"
    by (simp add: eval_defs)
  have v: "StartRevision ?snap = 1" "LastRevision ?snap = 4"
    by (simp_all add: NewSnapshot_def)
  note t = TakeDeltaSnapshot_revisions [where env = "quietEnv 4" and ssr = bufferedSnapshotter
      and now = "clockReading 0" and period = "20 * Second" and memoryLimit = 10485760
      and compression = False and leaseRenewal = False and fullSnap = None
      and deltaSnapList = "[]"]
  note t1 = t [THEN conjunct1, rule_format, OF s]
  note t2 = t [THEN conjunct2, THEN conjunct1, rule_format, of twoPuts "quietEnv 4"
      watchingSnapshotter]
  note t3 = t [THEN conjunct2, THEN conjunct2, THEN conjunct1, rule_format]
  note t4 = t [THEN conjunct2, THEN conjunct2, THEN conjunct2, THEN conjunct1]
  note t7 = t [THEN conjunct2, THEN conjunct2, THEN conjunct2, THEN conjunct2,
      THEN conjunct2, THEN conjunct2, rule_format]
  from t1 p v have 1: "sint (StartRevision ?snap) \<le> sint (LastRevision ?snap)" by simp
  from t2 h e have 2: "lastEventRevision bufferedSnapshotter = 4" by simp
  from t4 have "bufferTracksEvents freshSnapshotter" by (simp add: freshSnapshotter_def)
  then have i0: "bufferTracksEvents activeSnapshotter"
    by (simp add: bufferTracksEvents_def activeSnapshotter_def)
  from t7 [of activeSnapshotter ?msgs Selecting] i0 r
  have 3: "bufferTracksEvents bufferedSnapshotter" by simp
  from t3 [of ?snap ?rc] 3 s
  have 4: "LastRevision ?snap
             = ModRevision (Kv (fst (last (bufferedEvents bufferedSnapshotter))))" by simp
  from h 1 2 3 4 m s v show ?thesis by blast
qed

text \<open>
  C2. For a buffer \<open>B\<close> that is not empty, when the credentials check and the
  compression suffix succeed, \<open>TakeDeltaSnapshot\<close> calls \<open>Save\<close> once, with
  \<open>B @ "]" @ SHA256 (B @ "]")\<close> when compression is off and with what the compressor
  makes of that payload when it is on. Conversely every payload \<open>TakeDeltaSnapshot\<close>
  hands to \<open>Save\<close> is that one, or the compressor's output for it. \<open>Sum256 env\<close>
  is SHA-256; with its digest of 32 bytes the payload is 33 bytes longer than \<open>B\<close>.
\<close>

theorem TakeDeltaSnapshot_payload:
  "(events ssr \<noteq> [] \<and> snd (refreshStore env ssr) = None
      \<and> GetCompressionSuffix env = Inr sfx
      \<and> (compressionEnabled ssr \<longrightarrow>
           CompressSnapshot env (events ssr @ [0x5D] @ Sum256 env (events ssr @ [0x5D])) = Inr z)
    \<longrightarrow> (\<exists>snap. saveCalls (fst (TakeDeltaSnapshot env ssr)) = saveCalls ssr @
           [(snap, if compressionEnabled ssr then z
                   else events ssr @ [0x5D] @ Sum256 env (events ssr @ [0x5D]))]))
   \<and> (\<forall>snap rc. saveCalls (fst (TakeDeltaSnapshot env ssr)) = saveCalls ssr @ [(snap, rc)]
        \<longrightarrow> events ssr \<noteq> []
          \<and> (if compressionEnabled ssr
               then CompressSnapshot env
                      (events ssr @ [0x5D] @ Sum256 env (events ssr @ [0x5D])) = Inr rc
               else rc = events ssr @ [0x5D] @ Sum256 env (events ssr @ [0x5D])))
   \<and> (length (Sum256 env (events ssr @ [0x5D])) = 32 \<longrightarrow>
        length (events ssr @ [0x5D] @ Sum256 env (events ssr @ [0x5D]))
          = length (events ssr) + 33)"
proof (intro conjI allI impI)
  assume "length (Sum256 env (events ssr @ [0x5D])) = 32"
  then show "length (events ssr @ [0x5D] @ Sum256 env (events ssr @ [0x5D]))
          = length (events ssr) + 33" by simp
next
  assume "events ssr \<noteq> [] \<and> snd (refreshStore env ssr) = None
      \<and> GetCompressionSuffix env = Inr sfx
      \<and> (compressionEnabled ssr \<longrightarrow>
           CompressSnapshot env (events ssr @ [0x5D] @ Sum256 env (events ssr @ [0x5D])) = Inr z)"
  then show "\<exists>snap. saveCalls (fst (TakeDeltaSnapshot env ssr)) = saveCalls ssr @
           [(snap, if compressionEnabled ssr then z
                   else events ssr @ [0x5D] @ Sum256 env (events ssr @ [0x5D]))]"
    using TakeDeltaSnapshot_saves [of ssr env sfx z] by blast
next
  fix snap rc
  assume a: "saveCalls (fst (TakeDeltaSnapshot env ssr)) = saveCalls ssr @ [(snap, rc)]"
  with TakeDeltaSnapshot_save_cases [of env ssr] show "events ssr \<noteq> []" by auto
  from a TakeDeltaSnapshot_save_cases [of env ssr]
  show "if compressionEnabled ssr
        then CompressSnapshot env
               (events ssr @ [0x5D] @ Sum256 env (events ssr @ [0x5D])) = Inr rc
        else rc = events ssr @ [0x5D] @ Sum256 env (events ssr @ [0x5D])"
    by auto
qed


text \<open>The payload of the delta snapshot after the two puts.\<close>

theorem TakeDeltaSnapshot_payload_witness:
  "(\<exists>snap. saveCalls (fst (TakeDeltaSnapshot (quietEnv 4) bufferedSnapshotter)) =
      saveCalls bufferedSnapshotter @
        [(snap, [0x5B, 0x61, 0x2C, 0x62] @ [0x5D]
                  @ Sum256 (quietEnv 4) ([0x5B, 0x61, 0x2C, 0x62] @ [0x5D]))])
   \<and> length ([0x5B, 0x61, 0x2C, 0x62] @ [0x5D]
               @ Sum256 (quietEnv 4) ([0x5B, 0x61, 0x2C, 0x62] @ [0x5D])) = 37"
proof -
  have a: "events bufferedSnapshotter = [0x5B, 0x61, 0x2C, 0x62]"
    "\<not> compressionEnabled bufferedSnapshotter"
    "snd (refreshStore (quietEnv 4) bufferedSnapshotter) = None"
    "GetCompressionSuffix (quietEnv 4) = Inr []"
    by (simp_all add: eval_defs)
  have l: "length (Sum256 (quietEnv 4) ([0x5B, 0x61, 0x2C, 0x62] @ [0x5D])) = 32"
    by (simp add: quietEnv_def)
  from TakeDeltaSnapshot_payload [of bufferedSnapshotter "quietEnv 4" "[]" "[]"] a l
  show ?thesis by simp
qed

section \<open>Properties of the full snapshot\<close>

lemma takeFullSnapshot_skip:
  assumes "IsFinal (PrevSnapshot ssr)" and "Kind (PrevSnapshot ssr) = SnapshotKindFull"
    and "GetLatestRevision env = Inr (LastRevision (PrevSnapshot ssr))"
    and "takeFullSnapshot env True ssr = (ssr', r)"
  shows "saveCalls ssr' = saveCalls ssr \<and> objects ssr' = objects ssr
    \<and> PrevSnapshot ssr' = PrevSnapshot ssr \<and> PrevFullSnapshot ssr' = PrevFullSnapshot ssr
    \<and> PrevDeltaSnapshots ssr' = PrevDeltaSnapshots ssr
    \<and> fullSnapshotAckCh ssr' = fullSnapshotAckCh ssr
    \<and> (\<forall>s. r = Inr s \<longrightarrow> s = PrevSnapshot ssr)"
proof -
  obtain ssr1 r1 where rs: "refreshStore env (closeEtcdClient ssr) = (ssr1, r1)"
    by (cases "refreshStore env (closeEtcdClient ssr)")
  note fr = refreshStore_frame [OF rs, unfolded closeEtcdClient_def, simplified]
  from assms rs fr show ?thesis
    unfolding takeFullSnapshot_def takeFullSnapshot_body_def cleanupInMemoryEvents_def
    by (auto split: option.splits sum.splits if_splits)
qed

lemma saveFullSnapshot_ok:
  assumes "saveFullSnapshot env R isFinal ssr = (ssr', None)"
  shows "\<exists>sfx rc. saveCalls ssr' = saveCalls ssr @ [(NewSnapshot (Now env) SnapshotKindFull 0 R sfx isFinal, rc)]
    \<and> objects ssr' = objects ssr @ [(NewSnapshot (Now env) SnapshotKindFull 0 R sfx isFinal, rc)]
    \<and> PrevSnapshot ssr' = NewSnapshot (Now env) SnapshotKindFull 0 R sfx isFinal
    \<and> PrevFullSnapshot ssr' = Some (NewSnapshot (Now env) SnapshotKindFull 0 R sfx isFinal)
    \<and> PrevDeltaSnapshots ssr' = []
    \<and> fullSnapshotAckCh ssr' = fullSnapshotAckCh ssr
    \<and> DeltaSnapshotPeriod ssr' = DeltaSnapshotPeriod ssr"
  using assms
  unfolding saveFullSnapshot_def TakeAndSaveFullSnapshot_def store_Save_def Let_def
  by (auto split: option.splits sum.splits if_splits)

lemma takeFullSnapshot_saved:
  assumes "takeFullSnapshot env isFinal ssr = (ssr', Inr s)"
    and "GetLatestRevision env = Inr R"
    and "\<not> (isFinal \<and> IsFinal (PrevSnapshot ssr) \<and> Kind (PrevSnapshot ssr) = SnapshotKindFull
            \<and> LastRevision (PrevSnapshot ssr) = R)"
  shows "\<exists>sfx rc. s = NewSnapshot (Now env) SnapshotKindFull 0 R sfx isFinal
    \<and> saveCalls ssr' = saveCalls ssr @ [(s, rc)]
    \<and> objects ssr' = objects ssr @ [(s, rc)]
    \<and> PrevSnapshot ssr' = s
    \<and> fullSnapshotAckCh ssr' = fullSnapshotAckCh ssr"
proof -
  obtain ssr1 r1 where rs: "refreshStore env (closeEtcdClient ssr) = (ssr1, r1)"
    by (cases "refreshStore env (closeEtcdClient ssr)")
  note fr = refreshStore_frame [OF rs, unfolded closeEtcdClient_def, simplified]
  obtain ssr2 r2 where sv: "saveFullSnapshot env R isFinal ssr1 = (ssr2, r2)"
    by (cases "saveFullSnapshot env R isFinal ssr1")
  have n: "\<not> (isFinal \<and> IsFinal (PrevSnapshot ssr1) \<and> Kind (PrevSnapshot ssr1) = SnapshotKindFull
            \<and> LastRevision (PrevSnapshot ssr1) = R)"
    using assms(3) fr by simp
  from assms(1,2) rs sv n have r2: "r2 = None"
    unfolding takeFullSnapshot_def takeFullSnapshot_body_def
    by (auto split: option.splits sum.splits if_splits)
  note ok = saveFullSnapshot_ok [OF sv [unfolded r2]]
  from assms(1,2) rs sv n r2 have "PrevSnapshot ssr2 = s \<and> saveCalls ssr' = saveCalls ssr2
     \<and> objects ssr' = objects ssr2 \<and> PrevSnapshot ssr' = PrevSnapshot ssr2
     \<and> fullSnapshotAckCh ssr' = fullSnapshotAckCh ssr2"
    unfolding takeFullSnapshot_def takeFullSnapshot_body_def cleanupInMemoryEvents_def
    by (auto split: option.splits sum.splits if_splits)
  with ok fr show ?thesis by auto
qed

lemma handlerCase_full_continues:
  assumes "handlerCase env (FullSnapshotReq isFinal) ssr = (ssr', None)"
  shows "\<exists>ssr1 s. takeFullSnapshot env isFinal ssr = (ssr1, Inr s)
    \<and> saveCalls ssr' = saveCalls ssr1 \<and> objects ssr' = objects ssr1
    \<and> PrevSnapshot ssr' = PrevSnapshot ssr1
    \<and> PrevFullSnapshot ssr' = PrevFullSnapshot ssr1
    \<and> PrevDeltaSnapshots ssr' = PrevDeltaSnapshots ssr1
    \<and> fullSnapshotAckCh ssr' = fullSnapshotAckCh ssr1 @ [(Some s, None)]"
proof -
  obtain ssr1 r1 where t: "takeFullSnapshot env isFinal ssr = (ssr1, r1)"
    by (cases "takeFullSnapshot env isFinal ssr")
  from assms t show ?thesis
    unfolding handlerCase_def TakeFullSnapshotAndResetTimer_def resetFullSnapshotTimer_def
      fullLeaseTimerReset_def Let_def
    by (auto split: option.splits sum.splits if_splits)
qed

text \<open>
  C3. A final full snapshot is idempotent at an unchanged revision: when the previous
  snapshot is a Full snapshot marked Final whose \<open>LastRevision\<close> is the latest revision
  of the KV store, \<open>takeFullSnapshot\<close> with \<open>isFinal = true\<close> calls \<open>Save\<close> for
  nothing, writes no object and leaves \<open>PrevSnapshot\<close>, \<open>PrevFullSnapshot\<close> and
  \<open>PrevDeltaSnapshots\<close> as they were. So when the event handler serves two requests
  for a final full snapshot in a row without an error, while the KV store stays at
  revision \<open>R\<close> and the snapshot before them was not already a final one at \<open>R\<close>,
  exactly one object is written: a Full snapshot marked Final that ends at \<open>R\<close>, and
  both requests are acknowledged with it.
\<close>

theorem takeFullSnapshot_final_idempotent:
  "(IsFinal (PrevSnapshot ssr) \<and> Kind (PrevSnapshot ssr) = SnapshotKindFull
      \<and> GetLatestRevision env = Inr (LastRevision (PrevSnapshot ssr)) \<longrightarrow>
        saveCalls (fst (takeFullSnapshot env True ssr)) = saveCalls ssr
        \<and> objects (fst (takeFullSnapshot env True ssr)) = objects ssr
        \<and> PrevSnapshot (fst (takeFullSnapshot env True ssr)) = PrevSnapshot ssr
        \<and> PrevFullSnapshot (fst (takeFullSnapshot env True ssr)) = PrevFullSnapshot ssr
        \<and> PrevDeltaSnapshots (fst (takeFullSnapshot env True ssr)) = PrevDeltaSnapshots ssr)
   \<and> (GetLatestRevision env1 = Inr R \<and> GetLatestRevision env2 = Inr R
        \<and> \<not> (IsFinal (PrevSnapshot ssr) \<and> Kind (PrevSnapshot ssr) = SnapshotKindFull
               \<and> LastRevision (PrevSnapshot ssr) = R)
        \<and> snapshotEventHandler [(env1, FullSnapshotReq True), (env2, FullSnapshotReq True)] ssr
            = (ssr2, Selecting) \<longrightarrow>
        (\<exists>s rc. saveCalls ssr2 = saveCalls ssr @ [(s, rc)]
           \<and> objects ssr2 = objects ssr @ [(s, rc)]
           \<and> Kind s = SnapshotKindFull \<and> IsFinal s \<and> LastRevision s = R
           \<and> PrevSnapshot ssr2 = s
           \<and> fullSnapshotAckCh ssr2 = fullSnapshotAckCh ssr @ [(Some s, None), (Some s, None)]))"
proof (intro conjI impI)
  assume a: "IsFinal (PrevSnapshot ssr) \<and> Kind (PrevSnapshot ssr) = SnapshotKindFull
      \<and> GetLatestRevision env = Inr (LastRevision (PrevSnapshot ssr))"
  obtain ssr' r where t: "takeFullSnapshot env True ssr = (ssr', r)"
    by (cases "takeFullSnapshot env True ssr")
  from a takeFullSnapshot_skip [OF _ _ _ t] t
  show "saveCalls (fst (takeFullSnapshot env True ssr)) = saveCalls ssr"
    "objects (fst (takeFullSnapshot env True ssr)) = objects ssr"
    "PrevSnapshot (fst (takeFullSnapshot env True ssr)) = PrevSnapshot ssr"
    "PrevFullSnapshot (fst (takeFullSnapshot env True ssr)) = PrevFullSnapshot ssr"
    "PrevDeltaSnapshots (fst (takeFullSnapshot env True ssr)) = PrevDeltaSnapshots ssr"
    by simp_all
next
  assume a: "GetLatestRevision env1 = Inr R \<and> GetLatestRevision env2 = Inr R
        \<and> \<not> (IsFinal (PrevSnapshot ssr) \<and> Kind (PrevSnapshot ssr) = SnapshotKindFull
               \<and> LastRevision (PrevSnapshot ssr) = R)
        \<and> snapshotEventHandler [(env1, FullSnapshotReq True), (env2, FullSnapshotReq True)] ssr
            = (ssr2, Selecting)"
  obtain sA rA where hA: "handlerCase env1 (FullSnapshotReq True) ssr = (sA, rA)"
    by (cases "handlerCase env1 (FullSnapshotReq True) ssr")
  obtain sB rB where hB: "handlerCase env2 (FullSnapshotReq True) sA = (sB, rB)"
    by (cases "handlerCase env2 (FullSnapshotReq True) sA")
  from a hA have rA: "rA = None" by (cases rA) simp_all
  from a hA hB rA have rB: "rB = None" by (cases rB) simp_all
  from a hA hB rA rB have sB: "sB = ssr2" by simp
  from handlerCase_full_continues [OF hA [unfolded rA]]
  obtain ssr1 s where 1: "takeFullSnapshot env1 True ssr = (ssr1, Inr s)"
    "saveCalls sA = saveCalls ssr1" "objects sA = objects ssr1"
    "PrevSnapshot sA = PrevSnapshot ssr1"
    "fullSnapshotAckCh sA = fullSnapshotAckCh ssr1 @ [(Some s, None)]"
    by blast
  from a have g1: "GetLatestRevision env1 = Inr R" and g2: "GetLatestRevision env2 = Inr R"
    and n: "\<not> (True \<and> IsFinal (PrevSnapshot ssr) \<and> Kind (PrevSnapshot ssr) = SnapshotKindFull
               \<and> LastRevision (PrevSnapshot ssr) = R)" by simp_all
  from takeFullSnapshot_saved [OF 1(1) g1 n]
  obtain sfx rc where 2: "s = NewSnapshot (Now env1) SnapshotKindFull 0 R sfx True"
    "saveCalls ssr1 = saveCalls ssr @ [(s, rc)]" "objects ssr1 = objects ssr @ [(s, rc)]"
    "PrevSnapshot ssr1 = s" "fullSnapshotAckCh ssr1 = fullSnapshotAckCh ssr"
    by blast
  have sp: "Kind s = SnapshotKindFull" "IsFinal s" "LastRevision s = R"
    by (simp_all add: 2(1) NewSnapshot_def)
  from handlerCase_full_continues [OF hB [unfolded rB]]
  obtain ssr3 s' where 3: "takeFullSnapshot env2 True sA = (ssr3, Inr s')"
    "saveCalls sB = saveCalls ssr3" "objects sB = objects ssr3"
    "PrevSnapshot sB = PrevSnapshot ssr3"
    "fullSnapshotAckCh sB = fullSnapshotAckCh ssr3 @ [(Some s', None)]"
    by blast
  have pA: "PrevSnapshot sA = s" using 1(4) 2(4) by simp
  have "IsFinal (PrevSnapshot sA)" "Kind (PrevSnapshot sA) = SnapshotKindFull"
    "GetLatestRevision env2 = Inr (LastRevision (PrevSnapshot sA))"
    using pA sp g2 by simp_all
  from takeFullSnapshot_skip [OF this 3(1)]
  have 4: "saveCalls ssr3 = saveCalls sA" "objects ssr3 = objects sA"
    "PrevSnapshot ssr3 = PrevSnapshot sA" "fullSnapshotAckCh ssr3 = fullSnapshotAckCh sA"
    "s' = PrevSnapshot sA" by simp_all
  have "saveCalls ssr2 = saveCalls ssr @ [(s, rc)]"
    using sB 3(2) 4(1) 1(2) 2(2) by simp
  moreover have "objects ssr2 = objects ssr @ [(s, rc)]"
    using sB 3(3) 4(2) 1(3) 2(3) by simp
  moreover have "PrevSnapshot ssr2 = s"
    using sB 3(4) 4(3) pA by simp
  moreover have "fullSnapshotAckCh ssr2 = fullSnapshotAckCh ssr @ [(Some s, None), (Some s, None)]"
    using sB 3(5) 4(4,5) pA 1(5) 2(5) by simp
  ultimately show "\<exists>s rc. saveCalls ssr2 = saveCalls ssr @ [(s, rc)]
           \<and> objects ssr2 = objects ssr @ [(s, rc)]
           \<and> Kind s = SnapshotKindFull \<and> IsFinal s \<and> LastRevision s = R
           \<and> PrevSnapshot ssr2 = s
           \<and> fullSnapshotAckCh ssr2 = fullSnapshotAckCh ssr @ [(Some s, None), (Some s, None)]"
    using sp by blast
qed

text \<open>Two final triggers on an active snapshotter over a KV store idle at revision 7.\<close>

theorem takeFullSnapshot_final_idempotent_witness:
  "saveCalls (fst (snapshotEventHandler
       [(quietEnv 7, FullSnapshotReq True), (quietEnv 7, FullSnapshotReq True)]
       activeSnapshotter))
     = [(NewSnapshot (clockReading 1000) SnapshotKindFull 0 7 [] True, [])]
   \<and> saveCalls (fst (takeFullSnapshot (quietEnv 7) True
        (fst (takeFullSnapshot (quietEnv 7) True activeSnapshotter))))
     = saveCalls (fst (takeFullSnapshot (quietEnv 7) True activeSnapshotter))"
proof -
  let ?h = "snapshotEventHandler
       [(quietEnv 7, FullSnapshotReq True), (quietEnv 7, FullSnapshotReq True)]
       activeSnapshotter"
  let ?s1 = "fst (takeFullSnapshot (quietEnv 7) True activeSnapshotter)"
  have h: "?h = (fst ?h, Selecting)"
    by (simp add: eval_defs)
  have g: "GetLatestRevision (quietEnv 7) = Inr 7" by (simp add: quietEnv_def)
  have n: "\<not> (IsFinal (PrevSnapshot activeSnapshotter)
              \<and> Kind (PrevSnapshot activeSnapshotter) = SnapshotKindFull
              \<and> LastRevision (PrevSnapshot activeSnapshotter) = 7)"
    "saveCalls activeSnapshotter = []"
    by (simp_all add: eval_defs)
  have p: "IsFinal (PrevSnapshot ?s1)" "Kind (PrevSnapshot ?s1) = SnapshotKindFull"
    "GetLatestRevision (quietEnv 7) = Inr (LastRevision (PrevSnapshot ?s1))"
    by (simp_all add: eval_defs)
  have c: "saveCalls (fst ?h) = [(NewSnapshot (clockReading 1000) SnapshotKindFull 0 7 [] True, [])]"
    by (simp add: eval_defs)
  from takeFullSnapshot_final_idempotent
    [of ?s1 "quietEnv 7" "quietEnv 7" 7 "quietEnv 7" "fst ?h"] h g n p c
  show ?thesis by simp
qed

text \<open>
  C10. After \<open>takeFullSnapshot\<close> and after \<open>TakeDeltaSnapshot\<close>, whatever they
  return, the event buffer is empty and \<open>lastEventRevision\<close> is \<open>-1\<close>.
\<close>

theorem cleanup_after_snapshot:
  "events (fst (takeFullSnapshot env isFinal ssr)) = []
   \<and> lastEventRevision (fst (takeFullSnapshot env isFinal ssr)) = - 1
   \<and> events (fst (TakeDeltaSnapshot env ssr)) = []
   \<and> lastEventRevision (fst (TakeDeltaSnapshot env ssr)) = - 1"
  by (simp add: takeFullSnapshot_def TakeDeltaSnapshot_def cleanupInMemoryEvents_def
      split: prod.splits)

text \<open>
  A delta snapshot whose upload fails: the four buffered bytes are gone all the same.
\<close>

theorem cleanup_after_snapshot_witness:
  "events bufferedSnapshotter = [0x5B, 0x61, 0x2C, 0x62]
   \<and> snd (TakeDeltaSnapshot (failingStoreEnv 4) bufferedSnapshotter)
        = Inl (ErrorString ''503 Service Unavailable'')
   \<and> events (fst (TakeDeltaSnapshot (failingStoreEnv 4) bufferedSnapshotter)) = []
   \<and> lastEventRevision (fst (TakeDeltaSnapshot (failingStoreEnv 4) bufferedSnapshotter)) = - 1"
proof -
  have "events bufferedSnapshotter = [0x5B, 0x61, 0x2C, 0x62]"
    "snd (TakeDeltaSnapshot (failingStoreEnv 4) bufferedSnapshotter)
        = Inl (ErrorString ''503 Service Unavailable'')"
    by (simp_all add: eval_defs)
  with cleanup_after_snapshot [of "failingStoreEnv 4" False bufferedSnapshotter]
  show ?thesis by simp
qed

section \<open>Properties of the triggers and of the event handler\<close>

text \<open>
  C9. While the snapshotter is not active, \<open>TriggerFullSnapshot\<close> and
  \<open>TriggerDeltaSnapshot\<close> return a nil snapshot with the error
  \<open>snapshotter is not active\<close> and leave the snapshotter, so both request channels, as
  it was. \<open>TriggerDeltaSnapshot\<close> also returns an error and sends nothing when the
  delta snapshot period is below the threshold of one second. An active snapshotter is
  sent the request.
\<close>

theorem Trigger_not_active:
  "(SsrState ssr \<noteq> SnapshotterActive \<longrightarrow>
      TriggerFullSnapshot res isFinal ssr =
        (ssr, (None, Some (ErrorString ''snapshotter is not active'')))
      \<and> TriggerDeltaSnapshot res ssr =
        (ssr, (None, Some (ErrorString ''snapshotter is not active''))))
   \<and> (DeltaSnapshotPeriod ssr < DeltaSnapshotIntervalThreshold \<longrightarrow>
        (\<exists>err. snd (TriggerDeltaSnapshot res ssr) = (None, Some err))
        \<and> fst (TriggerDeltaSnapshot res ssr) = ssr)
   \<and> (SsrState ssr = SnapshotterActive \<longrightarrow>
        fullSnapshotReqCh (fst (TriggerFullSnapshot res isFinal ssr))
          = fullSnapshotReqCh ssr @ [isFinal]
        \<and> (DeltaSnapshotIntervalThreshold \<le> DeltaSnapshotPeriod ssr \<longrightarrow>
             deltaSnapshotReqCh (fst (TriggerDeltaSnapshot res ssr))
               = deltaSnapshotReqCh ssr @ [()]))"
  by (auto simp: TriggerFullSnapshot_def TriggerDeltaSnapshot_def)

text \<open>
  A snapshotter that was never started, and an active one whose delta period is 0.
\<close>

theorem Trigger_not_active_witness:
  "TriggerFullSnapshot (None, None) True freshSnapshotter =
     (freshSnapshotter, (None, Some (ErrorString ''snapshotter is not active'')))
   \<and> TriggerDeltaSnapshot (None, None) freshSnapshotter =
     (freshSnapshotter, (None, Some (ErrorString ''snapshotter is not active'')))
   \<and> fst (TriggerDeltaSnapshot (None, None) (activeSnapshotter\<lparr>DeltaSnapshotPeriod := 0\<rparr>))
       = activeSnapshotter\<lparr>DeltaSnapshotPeriod := 0\<rparr>
   \<and> fullSnapshotReqCh (fst (TriggerFullSnapshot (None, None) True activeSnapshotter)) = [True]"
proof -
  have a: "SsrState freshSnapshotter \<noteq> SnapshotterActive"
    by (simp add: freshSnapshotter_def NewSnapshotter_def)
  have b: "DeltaSnapshotPeriod (activeSnapshotter\<lparr>DeltaSnapshotPeriod := 0\<rparr>)
             < DeltaSnapshotIntervalThreshold"
    by (simp add: DeltaSnapshotIntervalThreshold_def Second_def)
  have c: "SsrState activeSnapshotter = SnapshotterActive"
    "fullSnapshotReqCh activeSnapshotter = []"
    by (simp_all add: activeSnapshotter_def freshSnapshotter_def NewSnapshotter_def)
  from a b c Trigger_not_active [of freshSnapshotter "(None, None)" True]
    Trigger_not_active [of "activeSnapshotter\<lparr>DeltaSnapshotPeriod := 0\<rparr>" "(None, None)" True]
    Trigger_not_active [of activeSnapshotter "(None, None)" True]
  show ?thesis by simp
qed

text \<open>
  C4, as the code has it. When the snapshot taken for a request fails, with whatever
  error, the handler sends the result with the error on the acknowledgement channel of
  the request and returns that error: the loop ends and nothing that follows is served.
  When the snapshot succeeds, the result is sent and the loop goes on.
\<close>

theorem snapshotEventHandler_exits_on_error:
  "(TakeFullSnapshotAndResetTimer env isFinal ssr = (ssr1, (s, Some e)) \<longrightarrow>
      snapshotEventHandler ((env, FullSnapshotReq isFinal) # rest) ssr
        = (ssr1\<lparr>fullSnapshotAckCh := fullSnapshotAckCh ssr1 @ [(s, Some e)],
                PrevFullSnapshotSucceeded := False\<rparr>,
           Returned (Some e)))
   \<and> (takeDeltaSnapshotAndResetTimer env ssr = (ssr1, (s, Some e)) \<longrightarrow>
      snapshotEventHandler ((env, DeltaSnapshotReq) # rest) ssr
        = (ssr1\<lparr>deltaSnapshotAckCh := deltaSnapshotAckCh ssr1 @ [(s, Some e)]\<rparr>,
           Returned (Some e)))
   \<and> (TakeFullSnapshotAndResetTimer env isFinal ssr = (ssr1, (s, None)) \<longrightarrow>
      snapshotEventHandler ((env, FullSnapshotReq isFinal) # rest) ssr
        = snapshotEventHandler rest
            (fullLeaseTimerReset
               (ssr1\<lparr>fullSnapshotAckCh := fullSnapshotAckCh ssr1 @ [(s, None)],
                      PrevFullSnapshotSucceeded := True\<rparr>)))
   \<and> (takeDeltaSnapshotAndResetTimer env ssr = (ssr1, (s, None)) \<longrightarrow>
      snapshotEventHandler ((env, DeltaSnapshotReq) # rest) ssr
        = snapshotEventHandler rest
            (deltaLeaseUpdate
               (ssr1\<lparr>deltaSnapshotAckCh := deltaSnapshotAckCh ssr1 @ [(s, None)]\<rparr>)))"
  by (simp add: handlerCase_def Let_def)

text \<open>
  A delta request whose upload the snap store refuses, followed by a second request.
\<close>

theorem snapshotEventHandler_exits_on_error_witness:
  "snapshotEventHandler [(failingStoreEnv 4, DeltaSnapshotReq), (quietEnv 4, DeltaSnapshotReq)]
     bufferedSnapshotter
   = ((fst (takeDeltaSnapshotAndResetTimer (failingStoreEnv 4) bufferedSnapshotter))
        \<lparr>deltaSnapshotAckCh := [(None, Some (ErrorString ''503 Service Unavailable''))]\<rparr>,
      Returned (Some (ErrorString ''503 Service Unavailable'')))"
proof -
  let ?s1 = "fst (takeDeltaSnapshotAndResetTimer (failingStoreEnv 4) bufferedSnapshotter)"
  have t: "takeDeltaSnapshotAndResetTimer (failingStoreEnv 4) bufferedSnapshotter
             = (?s1, (None, Some (ErrorString ''503 Service Unavailable'')))"
    by (simp add: eval_defs)
  have a: "deltaSnapshotAckCh ?s1 = []"
    by (simp add: eval_defs)
  from snapshotEventHandler_exits_on_error
    [of "failingStoreEnv 4" False bufferedSnapshotter ?s1 None
        "ErrorString ''503 Service Unavailable''" "[(quietEnv 4, DeltaSnapshotReq)]"] t a
  show ?thesis by simp
qed

text \<open>
  C4 as stated fails: the upload of a delta snapshot fails with an I/O error of the
  snap store, which is neither a configuration error nor an error of the KV store, and
  the handler returns that error after one acknowledgement; the second request is not
  served.
\<close>

theorem snapshotEventHandler_continues_counterexample:
  "snd (TakeDeltaSnapshot (failingStoreEnv 4) bufferedSnapshotter)
     = Inl (ErrorString ''503 Service Unavailable'')
   \<and> snd (snapshotEventHandler
        [(failingStoreEnv 4, DeltaSnapshotReq), (quietEnv 4, DeltaSnapshotReq)]
        bufferedSnapshotter)
     = Returned (Some (ErrorString ''503 Service Unavailable''))
   \<and> deltaSnapshotAckCh (fst (snapshotEventHandler
        [(failingStoreEnv 4, DeltaSnapshotReq), (quietEnv 4, DeltaSnapshotReq)]
        bufferedSnapshotter))
     = [(None, Some (ErrorString ''503 Service Unavailable''))]"
  by (simp add: eval_defs)

section \<open>Properties of the startup decision\<close>



section \<open>Properties of the initializer\<close>

lemma cleanPath_nonempty: "cleanPath d \<noteq> []"
  by (simp add: cleanPath_def Let_def)

lemma cleanDir_facts:
  assumes "cleanDir d"
  shows "cleanPath d = d" and "d \<noteq> []" and "d \<noteq> ''/''" and "filepath_Join d = d"
proof -
  from assms show c: "cleanPath d = d" and "d \<noteq> ''/''" by (simp_all add: cleanDir_def)
  from c cleanPath_nonempty [of d] show n: "d \<noteq> []" by auto
  from c n show "filepath_Join d = d" by (simp add: filepath_Join_def)
qed

lemma under_part_disjoint:
  assumes r: "dir \<noteq> ''/''" and u: "pathUnder dir p"
  shows "\<not> pathUnder (dir @ ''.part'') p"
proof
  assume v: "pathUnder (dir @ ''.part'') p"
  have nr: "dir @ ''.part'' \<noteq> ''/''" by (cases dir) simp_all
  from v nr have v': "p = dir @ ''.part''
      \<or> take (length (dir @ ''.part'') + 1) p = (dir @ ''.part'') @ ''/''"
    unfolding pathUnder_def by blast
  from v' have "take (length dir + 1) p = dir @ ''.''"
  proof
    assume "p = dir @ ''.part''"
    then show ?thesis by simp
  next
    assume "take (length (dir @ ''.part'') + 1) p = (dir @ ''.part'') @ ''/''"
    then have "take (length dir + 1) (take (length (dir @ ''.part'') + 1) p)
                 = take (length dir + 1) ((dir @ ''.part'') @ ''/'')" by simp
    then show ?thesis by (simp add: min_def)
  qed
  moreover from v' have "length dir < length p"
  proof
    assume "p = dir @ ''.part''" then show ?thesis by simp
  next
    assume a: "take (length (dir @ ''.part'') + 1) p = (dir @ ''.part'') @ ''/''"
    have "length (take (length (dir @ ''.part'') + 1) p) \<le> length p" by simp
    with a show ?thesis by simp
  qed
  ultimately show False using u r unfolding pathUnder_def by auto
qed

lemma part_not_under: "dir \<noteq> ''/'' \<Longrightarrow> \<not> pathUnder dir (dir @ ''.part'')"
  by (simp add: pathUnder_def)

lemma part_not_root: "dir @ ''.part'' \<noteq> ''/''"
  by (cases dir) simp_all

lemma removeDir_outside:
  assumes "cleanPath dir = dir" and "removeDir env dir fs = (fs', r)"
    and "\<not> pathUnder dir p"
  shows "fs' p = fs p"
  using assms
  by (auto simp: removeDir_def os_RemoveAll_def filepath_Join_def
      split: option.splits if_splits prod.splits)

lemma removeDir_clean:
  assumes "cleanPath d = d" and "RemoveAllFails env d = None"
  shows "removeDir env d fs = ((\<lambda>p. if pathUnder d p then None else fs p), None)"
proof -
  from assms(1) cleanPath_nonempty [of d] have "d \<noteq> []" by auto
  with assms show ?thesis
    by (simp add: removeDir_def os_RemoveAll_def filepath_Join_def)
qed

lemma restoreFromSnapshots_unchanged:
  assumes cd: "cleanPath d = d" and cp: "cleanPath (d @ ''.part'') = d @ ''.part''"
    and nr: "d \<noteq> ''/''"
    and f: "(\<forall>c. Restore env \<noteq> Restored c) \<or> NewRestorer env \<noteq> None
              \<or> RemoveAllFails env (d @ ''.part'') \<noteq> None"
  shows "(\<exists>e'. snd (restoreFromSnapshots env d fs) = Inl e')
    \<and> (\<forall>p. pathUnder d p \<longrightarrow> fst (restoreFromSnapshots env d fs) p = fs p)"
proof -
  obtain fs1 r1 where rd: "removeDir env (d @ ''.part'') fs = (fs1, r1)"
    by (cases "removeDir env (d @ ''.part'') fs")
  have keep: "\<And>p. pathUnder d p \<Longrightarrow> fs1 p = fs p"
    using removeDir_outside [OF cp rd] under_part_disjoint [OF nr] by blast
  have ne: "\<And>p. pathUnder d p \<Longrightarrow> p \<noteq> d @ ''.part''"
    using part_not_under [OF nr] by blast
  have r1: "RemoveAllFails env (d @ ''.part'') \<noteq> None \<Longrightarrow> r1 \<noteq> None"
    using rd cp by (auto simp: removeDir_def os_RemoveAll_def filepath_Join_def
        split: option.splits if_splits prod.splits)
  show ?thesis
  proof (cases r1)
    case (Some err)
    with rd keep show ?thesis
      unfolding restoreFromSnapshots_def Let_def by simp
  next
    case None
    note n1 = this
    show ?thesis
    proof (cases "NewRestorer env")
      case (Some err)
      with rd n1 keep show ?thesis
        unfolding restoreFromSnapshots_def Let_def by simp
    next
      case None
      with f r1 n1 have "\<forall>c. Restore env \<noteq> Restored c" by blast
      then obtain err left where "Restore env = RestoreFailed err left"
        by (cases "Restore env") auto
      with rd n1 None keep ne show ?thesis
        unfolding restoreFromSnapshots_def Let_def RestoreAndStopEtcd_def
        by (auto simp: cp)
    qed
  qed
qed

lemma restoreFromSnapshots_done:
  assumes cd: "cleanPath d = d" and cp: "cleanPath (d @ ''.part'') = d @ ''.part''"
    and nr: "d \<noteq> ''/''"
    and ok: "snd (restoreFromSnapshots env d fs) = Inr True"
  shows "\<exists>c. Restore env = Restored c
    \<and> fst (restoreFromSnapshots env d fs) d = Some c
    \<and> fst (restoreFromSnapshots env d fs) (d @ ''.part'') = None"
proof -
  have dn: "d \<noteq> []" using cd cleanPath_nonempty [of d] by auto
  have jd: "filepath_Join d = d" using cd dn by (simp add: filepath_Join_def)
  have jp: "filepath_Join (d @ ''.part'') = d @ ''.part''"
    using cp by (simp add: filepath_Join_def)
  obtain fs1 r1 where rd: "removeDir env (d @ ''.part'') fs = (fs1, r1)"
    by (cases "removeDir env (d @ ''.part'') fs")
  from ok rd have r1: "r1 = None"
    unfolding restoreFromSnapshots_def Let_def by (cases r1) simp_all
  from ok rd r1 have nw: "NewRestorer env = None"
    unfolding restoreFromSnapshots_def Let_def by (cases "NewRestorer env") simp_all
  from ok rd r1 nw obtain c where c: "Restore env = Restored c"
    unfolding restoreFromSnapshots_def Let_def RestoreAndStopEtcd_def
    by (cases "Restore env") simp_all
  define fs2 where "fs2 = fs1(d @ ''.part'' \<mapsto> c)"
  obtain fs3 r3 where rc: "removeDir env d fs2 = (fs3, r3)"
    by (cases "removeDir env d fs2")
  from ok rd r1 nw c rc have r3: "r3 = None"
    unfolding restoreFromSnapshots_def Let_def RestoreAndStopEtcd_def removeContents_def fs2_def
    by (cases r3) (simp_all add: cp)
  have p3: "fs3 (d @ ''.part'') = Some c"
    using removeDir_outside [OF cd rc part_not_under [OF nr]] by (simp add: fs2_def)
  from ok rd r1 nw c rc r3 p3 have rn: "RenameFails env = None"
    unfolding restoreFromSnapshots_def Let_def RestoreAndStopEtcd_def removeContents_def
      fs2_def os_Rename_def
    by (cases "RenameFails env") (simp_all add: cp cd jd jp dn)
  from rd r1 nw c rc r3 p3 rn
  have "fst (restoreFromSnapshots env d fs) =
          (\<lambda>p. if pathUnder (d @ ''.part'') p then None
                else if pathUnder d p then fs3 ((d @ ''.part'') @ drop (length d) p)
                else fs3 p)"
    unfolding restoreFromSnapshots_def Let_def RestoreAndStopEtcd_def removeContents_def
      fs2_def os_Rename_def jd jp cd cp
    by (simp add: dn)
  with c p3 nr show ?thesis
    by (simp add: pathUnder_def part_not_root)
qed

lemma restoreFromSnapshots_replaces:
  assumes cd: "cleanPath d = d" and cp: "cleanPath (d @ ''.part'') = d @ ''.part''"
    and nr: "d \<noteq> ''/''"
    and c: "Restore env = Restored c" and nw: "NewRestorer env = None"
    and ra: "RemoveAllFails env = (\<lambda>path. None)" and rn: "RenameFails env = None"
  shows "restoreFromSnapshots env d fs =
           ((\<lambda>p. if pathUnder (d @ ''.part'') p then None
                 else if p = d then Some c
                 else if pathUnder d p then None
                 else fs p), Inr True)"
proof -
  have dn: "d \<noteq> []" using cd cleanPath_nonempty [of d] by auto
  have jd: "filepath_Join d = d" using cd dn by (simp add: filepath_Join_def)
  have jp: "filepath_Join (d @ ''.part'') = d @ ''.part''"
    using cp by (simp add: filepath_Join_def)
  define fs1 where "fs1 = (\<lambda>p. if pathUnder (d @ ''.part'') p then None else fs p)"
  have rd: "removeDir env (d @ ''.part'') fs = (fs1, None)"
    using removeDir_clean [OF cp, of env fs] ra by (simp add: fs1_def)
  define fs2 where "fs2 = fs1(d @ ''.part'' \<mapsto> c)"
  define fs3 where "fs3 = (\<lambda>p. if pathUnder d p then None else fs2 p)"
  have rc: "removeDir env d fs2 = (fs3, None)"
    using removeDir_clean [OF cd, of env fs2] ra by (simp add: fs3_def)
  have p3: "fs3 (d @ ''.part'') = Some c"
    using part_not_under [OF nr] by (simp add: fs3_def fs2_def)
  have rnm: "os_Rename env (d @ ''.part'') d fs3 =
          ((\<lambda>p. if pathUnder (d @ ''.part'') p then None
                else if pathUnder d p then fs3 ((d @ ''.part'') @ drop (length d) p)
                else fs3 p), None)"
    using p3 rn unfolding os_Rename_def cp cd by (simp add: dn)
  have body: "restoreFromSnapshots env d fs =
          ((\<lambda>p. if pathUnder (d @ ''.part'') p then None
                else if pathUnder d p then fs3 ((d @ ''.part'') @ drop (length d) p)
                else fs3 p), Inr True)"
    using rd nw c
    unfolding restoreFromSnapshots_def Let_def RestoreAndStopEtcd_def removeContents_def
    by (simp add: cp jd jp fs2_def [symmetric] rc rnm)
  have inner: "\<And>p. pathUnder d p \<Longrightarrow> p \<noteq> d \<Longrightarrow> fs3 ((d @ ''.part'') @ drop (length d) p) = None"
  proof -
    fix p assume u: "pathUnder d p" and n: "p \<noteq> d"
    from u n nr have t: "take (length d + 1) p = d @ ''/''" by (simp add: pathUnder_def)
    define x where "x = drop (length d + 1) p"
    have "take (length d + 1) p @ drop (length d + 1) p = p" by (rule append_take_drop_id)
    then have pe: "(d @ ''/'') @ x = p" unfolding t x_def .
    have "drop (length d) ((d @ ''/'') @ x) = CHR ''/'' # x" by simp
    then have dr: "drop (length d) p = CHR ''/'' # x" unfolding pe .
    have up: "pathUnder (d @ ''.part'') ((d @ ''.part'') @ CHR ''/'' # x)"
      by (simp add: pathUnder_def)
    have nu: "\<not> pathUnder d ((d @ ''.part'') @ CHR ''/'' # x)"
      using nr by (simp add: pathUnder_def)
    show "fs3 ((d @ ''.part'') @ drop (length d) p) = None"
      unfolding dr fs3_def fs2_def fs1_def using up nu by simp
  qed
  have out: "\<And>p. \<not> pathUnder d p \<Longrightarrow> \<not> pathUnder (d @ ''.part'') p \<Longrightarrow> fs3 p = fs p"
    by (auto simp: fs3_def fs2_def fs1_def pathUnder_def)
  have self: "pathUnder d d" by (simp add: pathUnder_def)
  show ?thesis
    unfolding body using p3 inner out self by (auto simp: fun_eq_iff)
qed


text \<open>
  C6. The snap store is configured and holds a snapshot, and the data directory is a
  clean path whose \<open>.part\<close> path is clean too. Then \<open>restoreCorruptData\<close>
  restores into the \<open>.part\<close> directory first. (1) If that restore fails,
  \<open>restoreCorruptData\<close> returns an error and every path under the data directory
  holds what it held: the data directory is neither removed nor renamed. (2) If
  \<open>restoreCorruptData\<close> reports a restoration, the restore had succeeded, the data
  directory holds what the restorer built, and the \<open>.part\<close> directory is gone.
  (3) If the restore succeeds and the file operations do, \<open>restoreCorruptData\<close>
  reports the restoration, the data directory holds what the restorer built, nothing
  that was under the data directory is left, the \<open>.part\<close> directory is gone and
  every other path holds what it held. (4) If any path under the data directory has
  changed, the old \<open>.part\<close> directory had been removed, the restorer had been
  created and its restore had succeeded: the data directory is replaced only after the
  restore succeeded.
\<close>

theorem restoreCorruptData_atomic:
  "(case Config_SnapstoreConfig e of None \<Rightarrow> False | Some sc \<Rightarrow> Provider sc \<noteq> [])
   \<and> InitGetSnapstore env = None
   \<and> GetLatestFullSnapshotAndDeltaSnapList env = Inr (baseSnap, deltaSnapList)
   \<and> \<not> (baseSnap = None \<and> deltaSnapList = [])
   \<and> cleanDir (DataDir e)
   \<and> cleanPath (DataDir e @ ''.part'') = DataDir e @ ''.part'' \<longrightarrow>
     (\<forall>err left. Restore env = RestoreFailed err left \<longrightarrow>
        (\<exists>e'. snd (restoreCorruptData env e fs) = Inl e')
        \<and> (\<forall>p. pathUnder (DataDir e) p \<longrightarrow> fst (restoreCorruptData env e fs) p = fs p))
     \<and> (snd (restoreCorruptData env e fs) = Inr True \<longrightarrow>
          (\<exists>c. Restore env = Restored c
             \<and> fst (restoreCorruptData env e fs) (DataDir e) = Some c
             \<and> fst (restoreCorruptData env e fs) (DataDir e @ ''.part'') = None))
     \<and> (\<forall>c. Restore env = Restored c \<and> NewRestorer env = None
             \<and> RemoveAllFails env = (\<lambda>path. None) \<and> RenameFails env = None \<longrightarrow>
          snd (restoreCorruptData env e fs) = Inr True
          \<and> fst (restoreCorruptData env e fs) (DataDir e) = Some c
          \<and> fst (restoreCorruptData env e fs) (DataDir e @ ''.part'') = None
          \<and> (\<forall>p. pathUnder (DataDir e) p \<and> p \<noteq> DataDir e \<longrightarrow>
                 fst (restoreCorruptData env e fs) p = None)
          \<and> (\<forall>p. \<not> pathUnder (DataDir e) p \<and> \<not> pathUnder (DataDir e @ ''.part'') p \<longrightarrow>
                 fst (restoreCorruptData env e fs) p = fs p))
     \<and> ((\<exists>p. pathUnder (DataDir e) p \<and> fst (restoreCorruptData env e fs) p \<noteq> fs p) \<longrightarrow>
          RemoveAllFails env (DataDir e @ ''.part'') = None \<and> NewRestorer env = None
          \<and> (\<exists>c. Restore env = Restored c))"
proof (intro impI)
  let ?d = "DataDir e"
  let ?r = "restoreCorruptData env e fs"
  assume a: "(case Config_SnapstoreConfig e of None \<Rightarrow> False | Some sc \<Rightarrow> Provider sc \<noteq> [])
   \<and> InitGetSnapstore env = None
   \<and> GetLatestFullSnapshotAndDeltaSnapList env = Inr (baseSnap, deltaSnapList)
   \<and> \<not> (baseSnap = None \<and> deltaSnapList = [])
   \<and> cleanDir (DataDir e)
   \<and> cleanPath (DataDir e @ ''.part'') = DataDir e @ ''.part''"
  then have eq: "?r = restoreFromSnapshots env ?d fs"
    by (auto simp: restoreCorruptData_def Let_def split: option.splits)
  from a have cl: "cleanDir ?d" and cp: "cleanPath (?d @ ''.part'') = ?d @ ''.part''"
    by simp_all
  note cd = cleanDir_facts(1) [OF cl] and nr = cleanDir_facts(3) [OF cl]
  note unchanged = restoreFromSnapshots_unchanged [OF cd cp nr, of env fs, folded eq]
  have 1: "\<forall>err left. Restore env = RestoreFailed err left \<longrightarrow>
        (\<exists>e'. snd ?r = Inl e') \<and> (\<forall>p. pathUnder ?d p \<longrightarrow> fst ?r p = fs p)"
  proof (intro allI impI)
    fix err left assume "Restore env = RestoreFailed err left"
    then have "\<forall>c. Restore env \<noteq> Restored c" by simp
    then show "(\<exists>e'. snd ?r = Inl e') \<and> (\<forall>p. pathUnder ?d p \<longrightarrow> fst ?r p = fs p)"
      using unchanged by blast
  qed
  have 2: "snd ?r = Inr True \<longrightarrow>
          (\<exists>c. Restore env = Restored c \<and> fst ?r ?d = Some c \<and> fst ?r (?d @ ''.part'') = None)"
    unfolding eq using restoreFromSnapshots_done [OF cd cp nr, of env fs] by blast
  have 3: "\<forall>c. Restore env = Restored c \<and> NewRestorer env = None
             \<and> RemoveAllFails env = (\<lambda>path. None) \<and> RenameFails env = None \<longrightarrow>
          snd ?r = Inr True \<and> fst ?r ?d = Some c \<and> fst ?r (?d @ ''.part'') = None
          \<and> (\<forall>p. pathUnder ?d p \<and> p \<noteq> ?d \<longrightarrow> fst ?r p = None)
          \<and> (\<forall>p. \<not> pathUnder ?d p \<and> \<not> pathUnder (?d @ ''.part'') p \<longrightarrow> fst ?r p = fs p)"
  proof (intro allI impI)
    fix c assume h: "Restore env = Restored c \<and> NewRestorer env = None
             \<and> RemoveAllFails env = (\<lambda>path. None) \<and> RenameFails env = None"
    then have h1: "Restore env = Restored c" and h2: "NewRestorer env = None"
      and h3: "RemoveAllFails env = (\<lambda>path. None)" and h4: "RenameFails env = None"
      by simp_all
    note rp = restoreFromSnapshots_replaces [OF cd cp nr h1 h2 h3 h4, of fs, folded eq]
    have pu: "pathUnder (?d @ ''.part'') (?d @ ''.part'')" by (simp add: pathUnder_def)
    have np: "\<not> pathUnder (?d @ ''.part'') ?d"
      using under_part_disjoint [OF nr, of ?d] by (simp add: pathUnder_def)
    show "snd ?r = Inr True \<and> fst ?r ?d = Some c \<and> fst ?r (?d @ ''.part'') = None
          \<and> (\<forall>p. pathUnder ?d p \<and> p \<noteq> ?d \<longrightarrow> fst ?r p = None)
          \<and> (\<forall>p. \<not> pathUnder ?d p \<and> \<not> pathUnder (?d @ ''.part'') p \<longrightarrow> fst ?r p = fs p)"
      unfolding rp using pu np by (simp add: pathUnder_def [of "DataDir e" "DataDir e"])
  qed
  have 4: "(\<exists>p. pathUnder ?d p \<and> fst ?r p \<noteq> fs p) \<longrightarrow>
          RemoveAllFails env (?d @ ''.part'') = None \<and> NewRestorer env = None
          \<and> (\<exists>c. Restore env = Restored c)"
    using unchanged by blast
  from 1 2 3 4 show
    "(\<forall>err left. Restore env = RestoreFailed err left \<longrightarrow>
        (\<exists>e'. snd (restoreCorruptData env e fs) = Inl e')
        \<and> (\<forall>p. pathUnder (DataDir e) p \<longrightarrow> fst (restoreCorruptData env e fs) p = fs p))
     \<and> (snd (restoreCorruptData env e fs) = Inr True \<longrightarrow>
          (\<exists>c. Restore env = Restored c
             \<and> fst (restoreCorruptData env e fs) (DataDir e) = Some c
             \<and> fst (restoreCorruptData env e fs) (DataDir e @ ''.part'') = None))
     \<and> (\<forall>c. Restore env = Restored c \<and> NewRestorer env = None
             \<and> RemoveAllFails env = (\<lambda>path. None) \<and> RenameFails env = None \<longrightarrow>
          snd (restoreCorruptData env e fs) = Inr True
          \<and> fst (restoreCorruptData env e fs) (DataDir e) = Some c
          \<and> fst (restoreCorruptData env e fs) (DataDir e @ ''.part'') = None
          \<and> (\<forall>p. pathUnder (DataDir e) p \<and> p \<noteq> DataDir e \<longrightarrow>
                 fst (restoreCorruptData env e fs) p = None)
          \<and> (\<forall>p. \<not> pathUnder (DataDir e) p \<and> \<not> pathUnder (DataDir e @ ''.part'') p \<longrightarrow>
                 fst (restoreCorruptData env e fs) p = fs p))
     \<and> ((\<exists>p. pathUnder (DataDir e) p \<and> fst (restoreCorruptData env e fs) p \<noteq> fs p) \<longrightarrow>
          RemoveAllFails env (DataDir e @ ''.part'') = None \<and> NewRestorer env = None
          \<and> (\<exists>c. Restore env = Restored c))"
    by (intro conjI)
qed

lemma singleNode_clean:
  "cleanDir (DataDir singleNode)"
  "cleanPath (DataDir singleNode @ ''.part'') = DataDir singleNode @ ''.part''"
  by (simp_all add: cleanDir_def cleanPath_def singleNode_def Let_def)

text \<open>
  A restore that aborts on a hash mismatch leaves the corrupt database and the member
  directory in place; a restore that succeeds puts the restored database in their place
  and leaves no \<open>.part\<close> directory.
\<close>

theorem restoreCorruptData_atomic_witness:
  "(\<exists>e'. snd (restoreCorruptData
        (singleNodeEnv DataDirectoryCorrupt (Some fullAtTen)
           (RestoreFailed (ErrorString ''hash mismatch'') (Some ''partial db'')))
        singleNode staleDisk) = Inl e')
   \<and> fst (restoreCorruptData
        (singleNodeEnv DataDirectoryCorrupt (Some fullAtTen)
           (RestoreFailed (ErrorString ''hash mismatch'') (Some ''partial db'')))
        singleNode staleDisk) ''/var/etcd/data'' = Some ''corrupt db''
   \<and> fst (restoreCorruptData
        (singleNodeEnv DataDirectoryCorrupt (Some fullAtTen)
           (RestoreFailed (ErrorString ''hash mismatch'') (Some ''partial db'')))
        singleNode staleDisk) ''/var/etcd/data/member'' = Some ''wal''
   \<and> snd (restoreCorruptData
        (singleNodeEnv DataDirectoryCorrupt (Some fullAtTen) (Restored ''restored db''))
        singleNode staleDisk) = Inr True
   \<and> fst (restoreCorruptData
        (singleNodeEnv DataDirectoryCorrupt (Some fullAtTen) (Restored ''restored db''))
        singleNode staleDisk) ''/var/etcd/data'' = Some ''restored db''
   \<and> fst (restoreCorruptData
        (singleNodeEnv DataDirectoryCorrupt (Some fullAtTen) (Restored ''restored db''))
        singleNode staleDisk) ''/var/etcd/data/member'' = None
   \<and> fst (restoreCorruptData
        (singleNodeEnv DataDirectoryCorrupt (Some fullAtTen) (Restored ''restored db''))
        singleNode staleDisk) ''/var/etcd/data.part'' = None"
proof -
  let ?f = "singleNodeEnv DataDirectoryCorrupt (Some fullAtTen)
           (RestoreFailed (ErrorString ''hash mismatch'') (Some ''partial db''))"
  let ?s = "singleNodeEnv DataDirectoryCorrupt (Some fullAtTen) (Restored ''restored db'')"
  have a: "(case Config_SnapstoreConfig singleNode of None \<Rightarrow> False
            | Some sc \<Rightarrow> Provider sc \<noteq> [])
    \<and> InitGetSnapstore ?f = None
    \<and> GetLatestFullSnapshotAndDeltaSnapList ?f = Inr (Some fullAtTen, [])
    \<and> \<not> (Some fullAtTen = None \<and> ([]::Snapshot list) = [])
    \<and> cleanDir (DataDir singleNode)
    \<and> cleanPath (DataDir singleNode @ ''.part'') = DataDir singleNode @ ''.part''"
    using singleNode_clean by (simp add: singleNode_def singleNodeEnv_def)
  have b: "(case Config_SnapstoreConfig singleNode of None \<Rightarrow> False
            | Some sc \<Rightarrow> Provider sc \<noteq> [])
    \<and> InitGetSnapstore ?s = None
    \<and> GetLatestFullSnapshotAndDeltaSnapList ?s = Inr (Some fullAtTen, [])
    \<and> \<not> (Some fullAtTen = None \<and> ([]::Snapshot list) = [])
    \<and> cleanDir (DataDir singleNode)
    \<and> cleanPath (DataDir singleNode @ ''.part'') = DataDir singleNode @ ''.part''"
    using singleNode_clean by (simp add: singleNode_def singleNodeEnv_def)
  have f: "Restore ?f = RestoreFailed (ErrorString ''hash mismatch'') (Some ''partial db'')"
    by (simp add: singleNodeEnv_def)
  have s: "Restore ?s = Restored ''restored db'' \<and> NewRestorer ?s = None
             \<and> RemoveAllFails ?s = (\<lambda>path. None) \<and> RenameFails ?s = None"
    by (simp add: singleNodeEnv_def)
  have d: "DataDir singleNode = ''/var/etcd/data''" by (simp add: singleNode_def)
  have u: "pathUnder (DataDir singleNode) ''/var/etcd/data''"
    "pathUnder (DataDir singleNode) ''/var/etcd/data/member''"
    "pathUnder (DataDir singleNode) ''/var/etcd/data/member''
       \<and> ''/var/etcd/data/member'' \<noteq> DataDir singleNode"
    by (simp_all add: pathUnder_def singleNode_def)
  have k: "staleDisk ''/var/etcd/data'' = Some ''corrupt db''"
    "staleDisk ''/var/etcd/data/member'' = Some ''wal''"
    by (simp_all add: staleDisk_def)
  note r = restoreCorruptData_atomic [of singleNode ?f "Some fullAtTen" "[]" staleDisk,
      THEN mp, OF a, THEN conjunct1, rule_format, OF f]
  note t = restoreCorruptData_atomic [of singleNode ?s "Some fullAtTen" "[]" staleDisk,
      THEN mp, OF b, THEN conjunct2, THEN conjunct2, THEN conjunct1, rule_format, OF s]
  from r [THEN conjunct1]
    r [THEN conjunct2, rule_format, OF u(1)] r [THEN conjunct2, rule_format, OF u(2)]
    t [THEN conjunct1] t [THEN conjunct2, THEN conjunct1]
    t [THEN conjunct2, THEN conjunct2, THEN conjunct1]
    t [THEN conjunct2, THEN conjunct2, THEN conjunct2, THEN conjunct1, rule_format, OF u(3)]
    k d
  show ?thesis by simp
qed

text \<open>
  With a slash at the end of the data directory, the \<open>.part\<close> directory lies inside
  the data directory and is removed with it: the restore succeeds, the rename fails and
  the data directory is gone.
\<close>

lemma restoreCorruptData_unclean_path:
  "(\<exists>e'. snd (restoreCorruptData
        (singleNodeEnv DataDirectoryCorrupt (Some fullAtTen) (Restored ''restored db''))
        (singleNode \<lparr> DataDir := ''/var/etcd/data/'' \<rparr>) staleDisk) = Inl e')
   \<and> fst (restoreCorruptData
        (singleNodeEnv DataDirectoryCorrupt (Some fullAtTen) (Restored ''restored db''))
        (singleNode \<lparr> DataDir := ''/var/etcd/data/'' \<rparr>) staleDisk) ''/var/etcd/data'' = None"
  by (simp add: restoreCorruptData_def restoreFromSnapshots_def singleNodeEnv_def
      singleNode_def staleDisk_def removeDir_def os_RemoveAll_def filepath_Join_def
      cleanPath_def RestoreAndStopEtcd_def removeContents_def os_Rename_def pathUnder_def
      Let_def)

lemma restoreWithEmptySnapstore_wipes:
  assumes "cleanPath (DataDir e) = DataDir e"
    and "RemoveAllFails env = (\<lambda>path. None)" and "StatFails env = (\<lambda>p. None)"
  shows "(\<exists>b. snd (restoreWithEmptySnapstore env e fs) = Inr b)
    \<and> (\<forall>p. fst (restoreWithEmptySnapstore env e fs) p
            = (if fs (DataDir e) \<noteq> None \<and> pathUnder (DataDir e) p then None else fs p))"
proof -
  from assms(1) cleanPath_nonempty [of "DataDir e"] have n: "DataDir e \<noteq> []" by auto
  show ?thesis
    using assms(2,3) n
    unfolding restoreWithEmptySnapstore_def os_Stat_def Let_def
      removeDir_clean [OF assms(1), of env fs] assms(1)
    by (auto simp: removeDir_clean [OF assms(1)])
qed

lemma resetTempDir_ok:
  assumes "RemoveAllFails env = (\<lambda>path. None)" and "MkdirAllFails env = None"
    and "case Config_SnapstoreConfig e of None \<Rightarrow> True | Some sc \<Rightarrow> TempDir sc \<noteq> []"
  shows "snd (resetTempDir env e fs) = None
    \<and> (\<forall>p. fs p = None \<longrightarrow>
          (case Config_SnapstoreConfig e of
             None \<Rightarrow> True | Some sc \<Rightarrow> p \<noteq> cleanPath (TempDir sc)) \<longrightarrow>
          fst (resetTempDir env e fs) p = None)"
  using assms
  by (auto simp: resetTempDir_def removeDir_def os_RemoveAll_def filepath_Join_def
      os_MkdirAll_def split: option.splits)

text \<open>
  C5, as the code has it. On a single node: (1) each of the statuses
  \<open>WrongVolumeMounted\<close>, \<open>FailToOpenBoltDBError\<close>, \<open>DataDirectoryStatusUnknown\<close>
  and \<open>FailBelowRevisionConsistencyError\<close> makes \<open>Initialize\<close> return an error with
  the file system untouched: nothing is wiped and nothing is restored. (2) Only these
  four do: with the status \<open>DataDirectoryValid\<close>, \<open>Initialize\<close> goes on to make
  the temporary directory anew, and with every other status it runs the restoration
  and returns its error or, after it, makes the temporary directory anew. (3) For the
  status \<open>DataDirectoryCorrupt\<close>, a cluster of size one, an empty snap store (none
  configured, or one that lists no snapshot) and file operations that succeed,
  \<open>Initialize\<close> removes the data directory and returns success; the data directory
  is a clean path and the temporary directory is named and lies outside it.
\<close>

theorem Initialize_statuses:
  "(\<not> IsMultiNode env
      \<and> fst (Validate env) \<in> {WrongVolumeMounted, FailToOpenBoltDBError,
            DataDirectoryStatusUnknown, FailBelowRevisionConsistencyError} \<longrightarrow>
        fst (Initialize env e fs) = fs \<and> (\<exists>err. snd (Initialize env e fs) = Inr (Some err)))
   \<and> (\<not> IsMultiNode env
      \<and> fst (Validate env) \<notin> {WrongVolumeMounted, FailToOpenBoltDBError,
            DataDirectoryStatusUnknown, FailBelowRevisionConsistencyError} \<longrightarrow>
        Initialize env e fs =
          (if fst (Validate env) = DataDirectoryValid
           then (fst (resetTempDir env e fs), Inr (snd (resetTempDir env e fs)))
           else case restoreDataDir env e (fst (Validate env)) False fs of
                  (fs1, Some err) \<Rightarrow> (fs1, Inr (Some err))
                | (fs1, None) \<Rightarrow>
                    (fst (resetTempDir env e fs1), Inr (snd (resetTempDir env e fs1)))))
   \<and> (\<not> IsMultiNode env \<and> fst (Validate env) = DataDirectoryCorrupt
        \<and> OriginalClusterSize e \<le> 1
        \<and> cleanDir (DataDir e)
        \<and> (case Config_SnapstoreConfig e of
              None \<Rightarrow> True
            | Some sc \<Rightarrow> TempDir sc \<noteq> []
                \<and> \<not> pathUnder (DataDir e) (cleanPath (TempDir sc))
                \<and> (Provider sc = [] \<or> InitGetSnapstore env = None
                      \<and> GetLatestFullSnapshotAndDeltaSnapList env = Inr (None, [])))
        \<and> RemoveAllFails env = (\<lambda>path. None) \<and> StatFails env = (\<lambda>p. None)
        \<and> MkdirAllFails env = None
        \<and> fs (DataDir e) \<noteq> None \<longrightarrow>
        snd (Initialize env e fs) = Inr None
        \<and> (\<forall>p. pathUnder (DataDir e) p \<longrightarrow> fst (Initialize env e fs) p = None))"
proof (intro conjI impI)
  assume a: "\<not> IsMultiNode env
      \<and> fst (Validate env) \<in> {WrongVolumeMounted, FailToOpenBoltDBError,
            DataDirectoryStatusUnknown, FailBelowRevisionConsistencyError}"
  obtain st verr where v: "Validate env = (st, verr)" by (cases "Validate env")
  from a v show "fst (Initialize env e fs) = fs"
    by (auto simp: Initialize_def scaleUpCheck_def)
  from a v show "\<exists>err. snd (Initialize env e fs) = Inr (Some err)"
    by (auto simp: Initialize_def scaleUpCheck_def)
next
  assume a: "\<not> IsMultiNode env
      \<and> fst (Validate env) \<notin> {WrongVolumeMounted, FailToOpenBoltDBError,
            DataDirectoryStatusUnknown, FailBelowRevisionConsistencyError}"
  obtain st verr where v: "Validate env = (st, verr)" by (cases "Validate env")
  from a v show "Initialize env e fs =
          (if fst (Validate env) = DataDirectoryValid
           then (fst (resetTempDir env e fs), Inr (snd (resetTempDir env e fs)))
           else case restoreDataDir env e (fst (Validate env)) False fs of
                  (fs1, Some err) \<Rightarrow> (fs1, Inr (Some err))
                | (fs1, None) \<Rightarrow>
                    (fst (resetTempDir env e fs1), Inr (snd (resetTempDir env e fs1))))"
    by (simp add: Initialize_def scaleUpCheck_def split: prod.splits option.splits)
next
  assume a: "\<not> IsMultiNode env \<and> fst (Validate env) = DataDirectoryCorrupt
        \<and> OriginalClusterSize e \<le> 1
        \<and> cleanDir (DataDir e)
        \<and> (case Config_SnapstoreConfig e of
              None \<Rightarrow> True
            | Some sc \<Rightarrow> TempDir sc \<noteq> []
                \<and> \<not> pathUnder (DataDir e) (cleanPath (TempDir sc))
                \<and> (Provider sc = [] \<or> InitGetSnapstore env = None
                      \<and> GetLatestFullSnapshotAndDeltaSnapList env = Inr (None, [])))
        \<and> RemoveAllFails env = (\<lambda>path. None) \<and> StatFails env = (\<lambda>p. None)
        \<and> MkdirAllFails env = None
        \<and> fs (DataDir e) \<noteq> None"
  obtain verr where v: "Validate env = (DataDirectoryCorrupt, verr)"
    using a by (cases "Validate env") simp
  from a have ra: "RemoveAllFails env = (\<lambda>path. None)" and sf: "StatFails env = (\<lambda>p. None)"
    and mk: "MkdirAllFails env = None" and ex: "fs (DataDir e) \<noteq> None"
    and cl: "cleanDir (DataDir e)" by simp_all
  from a have td: "case Config_SnapstoreConfig e of None \<Rightarrow> True | Some sc \<Rightarrow> TempDir sc \<noteq> []"
    by (auto split: option.splits)
  from a have rc: "restoreCorruptData env e fs = restoreWithEmptySnapstore env e fs"
    by (auto simp: restoreCorruptData_def Let_def split: option.splits)
  note w = restoreWithEmptySnapstore_wipes [OF cleanDir_facts(1) [OF cl] ra sf, of fs]
  obtain fs1 r1 where rw: "restoreWithEmptySnapstore env e fs = (fs1, r1)"
    by (cases "restoreWithEmptySnapstore env e fs")
  from w rw obtain b where b: "r1 = Inr b" by auto
  from w rw ex have wiped: "\<And>p. pathUnder (DataDir e) p \<Longrightarrow> fs1 p = None" by auto
  have rd: "restoreDataDir env e DataDirectoryCorrupt False fs = (fs1, None)"
    using a rc rw b by (simp add: restoreDataDir_def)
  have init: "Initialize env e fs
                = (fst (resetTempDir env e fs1), Inr (snd (resetTempDir env e fs1)))"
    using a v rd by (simp add: Initialize_def scaleUpCheck_def split: prod.splits)
  note t = resetTempDir_ok [OF ra mk td, of fs1]
  from init t show "snd (Initialize env e fs) = Inr None" by simp
  show "\<forall>p. pathUnder (DataDir e) p \<longrightarrow> fst (Initialize env e fs) p = None"
  proof (intro allI impI)
    fix p assume u: "pathUnder (DataDir e) p"
    have "case Config_SnapstoreConfig e of
            None \<Rightarrow> True | Some sc \<Rightarrow> p \<noteq> cleanPath (TempDir sc)"
      using a u by (auto split: option.splits)
    with t wiped [OF u] init show "fst (Initialize env e fs) p = None" by simp
  qed
qed

text \<open>The definitions a concrete run of the initializer unfolds.\<close>

lemmas eval_init_defs =
  Initialize_def scaleUpCheck_def singleNodeEnv_def singleNode_def corruptDisk_def
  restoreDataDir_def restoreCorruptData_def restoreWithEmptySnapstore_def
  restoreFromSnapshots_def RestoreAndStopEtcd_def removeContents_def os_Stat_def
  os_RemoveAll_def os_Rename_def removeDir_def resetTempDir_def os_MkdirAll_def
  filepath_Join_def cleanPath_def ErrorfNilable_def pathUnder_def fullAtTen_def Let_def

text \<open>
  The same single node, with status Unknown and an empty store, with status Corrupt
  and an empty store, with status Valid, and with status Corrupt and a full snapshot in
  the store.
\<close>

theorem Initialize_statuses_witness:
  "fst (Initialize (singleNodeEnv DataDirectoryStatusUnknown None (Restored [])) singleNode
          corruptDisk) = corruptDisk
   \<and> (\<exists>err. snd (Initialize (singleNodeEnv DataDirectoryStatusUnknown None (Restored []))
                    singleNode corruptDisk) = Inr (Some err))
   \<and> snd (Initialize (singleNodeEnv DataDirectoryCorrupt None (Restored [])) singleNode
            corruptDisk) = Inr None
   \<and> fst (Initialize (singleNodeEnv DataDirectoryCorrupt None (Restored [])) singleNode
            corruptDisk) ''/var/etcd/data'' = None
   \<and> snd (Initialize (singleNodeEnv DataDirectoryValid None (Restored [])) singleNode
            corruptDisk) = Inr None
   \<and> fst (Initialize (singleNodeEnv DataDirectoryValid None (Restored [])) singleNode
            corruptDisk) ''/var/etcd/data'' = Some ''corrupt db''
   \<and> snd (Initialize (singleNodeEnv DataDirectoryCorrupt (Some fullAtTen)
                         (Restored ''restored db'')) singleNode corruptDisk) = Inr None
   \<and> fst (Initialize (singleNodeEnv DataDirectoryCorrupt (Some fullAtTen)
                         (Restored ''restored db'')) singleNode corruptDisk)
          ''/var/etcd/data'' = Some ''restored db''"
proof -
  let ?u = "singleNodeEnv DataDirectoryStatusUnknown None (Restored [])"
  let ?c = "singleNodeEnv DataDirectoryCorrupt None (Restored [])"
  let ?v = "singleNodeEnv DataDirectoryValid None (Restored [])"
  let ?r = "singleNodeEnv DataDirectoryCorrupt (Some fullAtTen) (Restored ''restored db'')"
  let ?four = "{WrongVolumeMounted, FailToOpenBoltDBError,
            DataDirectoryStatusUnknown, FailBelowRevisionConsistencyError}"
  have a: "\<not> IsMultiNode ?u \<and> fst (Validate ?u) \<in> ?four"
    by (simp add: singleNodeEnv_def)
  have b: "\<not> IsMultiNode ?c \<and> fst (Validate ?c) = DataDirectoryCorrupt
        \<and> OriginalClusterSize singleNode \<le> 1
        \<and> cleanDir (DataDir singleNode)
        \<and> (case Config_SnapstoreConfig singleNode of
              None \<Rightarrow> True
            | Some sc \<Rightarrow> TempDir sc \<noteq> []
                \<and> \<not> pathUnder (DataDir singleNode) (cleanPath (TempDir sc))
                \<and> (Provider sc = [] \<or> InitGetSnapstore ?c = None
                      \<and> GetLatestFullSnapshotAndDeltaSnapList ?c = Inr (None, [])))
        \<and> RemoveAllFails ?c = (\<lambda>path. None) \<and> StatFails ?c = (\<lambda>p. None)
        \<and> MkdirAllFails ?c = None
        \<and> corruptDisk (DataDir singleNode) \<noteq> None"
    using singleNode_clean(1)
    by (simp add: singleNodeEnv_def singleNode_def corruptDisk_def pathUnder_def
        cleanPath_def Let_def)
  have v: "\<not> IsMultiNode ?v \<and> fst (Validate ?v) \<notin> ?four"
    by (simp add: singleNodeEnv_def)
  have r: "\<not> IsMultiNode ?r \<and> fst (Validate ?r) \<notin> ?four"
    by (simp add: singleNodeEnv_def)
  have u: "pathUnder (DataDir singleNode) ''/var/etcd/data''"
    by (simp add: pathUnder_def singleNode_def)
  note 1 = Initialize_statuses [of ?u singleNode corruptDisk, THEN conjunct1, THEN mp, OF a]
  note 2 = Initialize_statuses [of ?c singleNode corruptDisk, THEN conjunct2, THEN conjunct2,
      THEN mp, OF b]
  note 3 = Initialize_statuses [of ?v singleNode corruptDisk, THEN conjunct2, THEN conjunct1,
      THEN mp, OF v]
  note 4 = Initialize_statuses [of ?r singleNode corruptDisk, THEN conjunct2, THEN conjunct1,
      THEN mp, OF r]
  have sv: "fst (Validate ?v) = DataDirectoryValid"
    and sr: "fst (Validate ?r) = DataDirectoryCorrupt"
    by (simp_all add: singleNodeEnv_def)
  have rt: "resetTempDir ?v singleNode corruptDisk = (corruptDisk(''/tmp'' \<mapsto> []), None)"
    by (simp add: resetTempDir_def singleNode_def singleNodeEnv_def os_MkdirAll_def
        corruptDisk_def cleanPath_def Let_def)
  have rs: "snd (restoreDataDir ?r singleNode DataDirectoryCorrupt False corruptDisk) = None"
    "fst (restoreDataDir ?r singleNode DataDirectoryCorrupt False corruptDisk)
       ''/var/etcd/data'' = Some ''restored db''"
    "fst (restoreDataDir ?r singleNode DataDirectoryCorrupt False corruptDisk)
       ''/tmp'' = None"
    by (simp_all add: eval_init_defs)
  obtain fs1 where fs1: "restoreDataDir ?r singleNode DataDirectoryCorrupt False corruptDisk
         = (fs1, None)"
    using rs(1) by (cases "restoreDataDir ?r singleNode DataDirectoryCorrupt False corruptDisk")
      simp
  have f1: "fs1 ''/var/etcd/data'' = Some ''restored db''" using rs(2) fs1 by simp
  have rt2: "snd (resetTempDir ?r singleNode fs1) = None"
    "fst (resetTempDir ?r singleNode fs1) ''/var/etcd/data'' = fs1 ''/var/etcd/data''"
    by (simp_all add: resetTempDir_def singleNode_def singleNodeEnv_def os_MkdirAll_def
        cleanPath_def Let_def)
  have 5: "snd (Initialize ?v singleNode corruptDisk) = Inr None"
    "fst (Initialize ?v singleNode corruptDisk) ''/var/etcd/data'' = Some ''corrupt db''"
    unfolding 3 sv rt by (simp_all add: corruptDisk_def)
  have 6: "snd (Initialize ?r singleNode corruptDisk) = Inr None"
    "fst (Initialize ?r singleNode corruptDisk) ''/var/etcd/data'' = Some ''restored db''"
    unfolding 4 sr fs1 using rt2 f1 by simp_all
  from 1 2 [THEN conjunct1] 2 [THEN conjunct2, rule_format, OF u] 5 6
  show ?thesis by simp
qed

text \<open>
  C5 as stated fails: with status Unknown and an empty snap store, \<open>Initialize\<close>
  returns the error \<open>error while initializing\<close> and the data directory still holds
  the corrupt database, whereas with status Corrupt it returns success and the data
  directory is gone.
\<close>

theorem Initialize_unknown_counterexample:
  "Initialize (singleNodeEnv DataDirectoryStatusUnknown None (Restored [])) singleNode
     corruptDisk
   = (corruptDisk,
      Inr (Some (Errorf ''error while initializing: %v'' (ErrorString ''validation failed''))))
   \<and> corruptDisk ''/var/etcd/data'' = Some ''corrupt db''
   \<and> snd (Initialize (singleNodeEnv DataDirectoryCorrupt None (Restored [])) singleNode
            corruptDisk) = Inr None
   \<and> fst (Initialize (singleNodeEnv DataDirectoryCorrupt None (Restored [])) singleNode
            corruptDisk) ''/var/etcd/data'' = None"
  by (simp add: eval_init_defs)

end
